theory Spec2Isabelle
  imports Main
begin

section \<open>pycronometer: the legacy-RPC codec and the session authenticator\<close>

text \<open>
  A shallow embedding of \<^verbatim>\<open>pycronometer/gwt.py\<close>, \<^verbatim>\<open>pycronometer/auth.py\<close> and the
  authentication part of \<^verbatim>\<open>pycronometer/client.py\<close>.

  A Python \<^verbatim>\<open>str\<close> is modelled as the list of its code points, \<open>ustring\<close>; \<open>cp\<close> gives
  the code point of a character of the source text and \<open>lit\<close> embeds a literal.
  Exceptions are values of the type \<open>error\<close>; a function that may raise returns
  \<open>error + 'a\<close>, and a function that talks to the network also returns the session it
  leaves behind.
\<close>

subsection \<open>Strings\<close>

type_synonym ustring = "nat list"

definition cp :: "char \<Rightarrow> nat" where
  "cp c = of_char c"

definition lit :: "string \<Rightarrow> ustring" where
  "lit s = map cp s"

subsection \<open>exceptions.py and the exceptions of the libraries\<close>

datatype error =
    CronometerAuthError ustring
  | GWTVersionError ustring
  | ExportError ustring
  | HTTPError nat
  | RequestException
  | JSONDecodeError
  | AttributeError
  | AssertionError
  | KeyError
  | CookieConflictError

text \<open>\<^verbatim>\<open>isinstance(e, CronometerAuthError)\<close>: the two subclasses of CronometerError used by
  the authenticator are siblings, and the exceptions of \<^verbatim>\<open>requests\<close> are neither.\<close>

fun is_CronometerAuthError :: "error \<Rightarrow> bool" where
  "is_CronometerAuthError (CronometerAuthError m) = True"
| "is_CronometerAuthError e = False"

fun is_GWTVersionError :: "error \<Rightarrow> bool" where
  "is_GWTVersionError (GWTVersionError m) = True"
| "is_GWTVersionError e = False"

subsection \<open>The fragment of Python's re module that gwt.py uses\<close>

text \<open>
  A pattern is a sequence of items: a literal character, a greedy repetition of a
  character class with a minimal count (\<^verbatim>\<open>\d+\<close> is \<open>Rep 1 is_digit\<close>, \<^verbatim>\<open>.*\<close> is
  \<open>Rep 0 not_newline\<close>), and the parentheses of the one capturing group.
  \<open>rx_match\<close> matches a pattern at the start of the text, backtracking over the
  repetitions from the longest run to the shortest, and returns group 1.
  \<open>rx_search\<close> is \<^verbatim>\<open>pattern.search\<close>: the match at the leftmost position that has one.
\<close>

datatype rx_item = Lit nat | Rep nat "nat \<Rightarrow> bool" | GOpen | GClose

fun first_some :: "('a \<Rightarrow> 'b option) \<Rightarrow> 'a list \<Rightarrow> 'b option" where
  "first_some f [] = None"
| "first_some f (k # ks) = (case f k of Some r \<Rightarrow> Some r | None \<Rightarrow> first_some f ks)"

primrec rx_match :: "rx_item list \<Rightarrow> ustring \<Rightarrow> bool \<Rightarrow> ustring \<Rightarrow> ustring option" where
  "rx_match [] s g c = Some c"
| "rx_match (it # p) s g c =
     (case it of
        Lit a \<Rightarrow>
          (case s of
             [] \<Rightarrow> None
           | x # xs \<Rightarrow> if x = a then rx_match p xs g (if g then c @ [x] else c) else None)
      | Rep n cls \<Rightarrow>
          first_some (\<lambda>k. rx_match p (drop k s) g (if g then c @ take k s else c))
            (rev [n ..< Suc (length (takeWhile cls s))])
      | GOpen \<Rightarrow> rx_match p s True []
      | GClose \<Rightarrow> rx_match p s False c)"

fun rx_search :: "rx_item list \<Rightarrow> ustring \<Rightarrow> ustring option" where
  "rx_search p [] = rx_match p [] False []"
| "rx_search p (x # xs) =
     (case rx_match p (x # xs) False [] of
        Some c \<Rightarrow> Some c
      | None \<Rightarrow> rx_search p xs)"

text \<open>The class \<^verbatim>\<open>\d\<close> of a \<^verbatim>\<open>str\<close> pattern: the code points of general category Nd, given
  as the inclusive runs of the Unicode 14.0 database that CPython 3.11 carries (660 code
  points, the ASCII digits being the first run).\<close>

definition decimal_ranges :: "(nat \<times> nat) list" where
  "decimal_ranges =
     [
      (0x30, 0x39), (0x660, 0x669), (0x6F0, 0x6F9), (0x7C0, 0x7C9),
      (0x966, 0x96F), (0x9E6, 0x9EF), (0xA66, 0xA6F), (0xAE6, 0xAEF),
      (0xB66, 0xB6F), (0xBE6, 0xBEF), (0xC66, 0xC6F), (0xCE6, 0xCEF),
      (0xD66, 0xD6F), (0xDE6, 0xDEF), (0xE50, 0xE59), (0xED0, 0xED9),
      (0xF20, 0xF29), (0x1040, 0x1049), (0x1090, 0x1099), (0x17E0, 0x17E9),
      (0x1810, 0x1819), (0x1946, 0x194F), (0x19D0, 0x19D9), (0x1A80, 0x1A89),
      (0x1A90, 0x1A99), (0x1B50, 0x1B59), (0x1BB0, 0x1BB9), (0x1C40, 0x1C49),
      (0x1C50, 0x1C59), (0xA620, 0xA629), (0xA8D0, 0xA8D9), (0xA900, 0xA909),
      (0xA9D0, 0xA9D9), (0xA9F0, 0xA9F9), (0xAA50, 0xAA59), (0xABF0, 0xABF9),
      (0xFF10, 0xFF19), (0x104A0, 0x104A9), (0x10D30, 0x10D39), (0x11066, 0x1106F),
      (0x110F0, 0x110F9), (0x11136, 0x1113F), (0x111D0, 0x111D9), (0x112F0, 0x112F9),
      (0x11450, 0x11459), (0x114D0, 0x114D9), (0x11650, 0x11659), (0x116C0, 0x116C9),
      (0x11730, 0x11739), (0x118E0, 0x118E9), (0x11950, 0x11959), (0x11C50, 0x11C59),
      (0x11D50, 0x11D59), (0x11DA0, 0x11DA9), (0x16A60, 0x16A69), (0x16AC0, 0x16AC9),
      (0x16B50, 0x16B59), (0x1D7CE, 0x1D7FF), (0x1E140, 0x1E149), (0x1E2F0, 0x1E2F9),
      (0x1E950, 0x1E959), (0x1FBF0, 0x1FBF9)]"

definition is_digit :: "nat \<Rightarrow> bool" where
  "is_digit c = list_ex (\<lambda>(lo, hi). lo \<le> c \<and> c \<le> hi) decimal_ranges"

definition DQ :: nat where
  "DQ = cp CHR 0x22"

definition NL :: nat where
  "NL = cp CHR 0x0A"

definition not_newline :: "nat \<Rightarrow> bool" where
  "not_newline c = (c \<noteq> NL)"

subsection \<open>gwt.py\<close>

definition DEFAULT_GWT_CONTENT_TYPE :: ustring where
  "DEFAULT_GWT_CONTENT_TYPE = lit ''text/x-gwt-rpc; charset=UTF-8''"

definition DEFAULT_GWT_MODULE_BASE :: ustring where
  "DEFAULT_GWT_MODULE_BASE = lit ''https://cronometer.com/cronometer/''"

definition DEFAULT_GWT_PERMUTATION :: ustring where
  "DEFAULT_GWT_PERMUTATION = lit ''7B121DC5483BF272B1BC1916DA9FA963''"

definition DEFAULT_GWT_HEADER :: ustring where
  "DEFAULT_GWT_HEADER = lit ''2D6A926E3729946302DC68073CB0D550''"

definition ENV_GWT_PERMUTATION :: ustring where
  "ENV_GWT_PERMUTATION = lit ''CRONOMETER_GWT_PERMUTATION''"

definition ENV_GWT_HEADER :: ustring where
  "ENV_GWT_HEADER = lit ''CRONOMETER_GWT_HEADER''"

record GWTConfig =
  content_type :: ustring
  module_base :: ustring
  permutation :: ustring
  header :: ustring

text \<open>\<^verbatim>\<open>os.environ.get(name, default)\<close>; the process environment is the map \<open>environ\<close>.\<close>

definition environ_get :: "(ustring \<rightharpoonup> ustring) \<Rightarrow> ustring \<Rightarrow> ustring \<Rightarrow> ustring" where
  "environ_get environ name dflt = (case environ name of Some v \<Rightarrow> v | None \<Rightarrow> dflt)"

text \<open>\<^verbatim>\<open>arg or other\<close> on \<^verbatim>\<open>str | None\<close>: \<^verbatim>\<open>None\<close> and the empty string are both falsy.\<close>

definition str_or :: "ustring option \<Rightarrow> ustring \<Rightarrow> ustring" where
  "str_or arg other = (case arg of None \<Rightarrow> other | Some v \<Rightarrow> if v = [] then other else v)"

definition get_gwt_config ::
  "(ustring \<rightharpoonup> ustring) \<Rightarrow> ustring option \<Rightarrow> ustring option \<Rightarrow> GWTConfig" where
  "get_gwt_config environ permutation_arg header_arg =
     \<lparr> content_type = DEFAULT_GWT_CONTENT_TYPE,
       module_base = DEFAULT_GWT_MODULE_BASE,
       permutation =
         str_or permutation_arg (environ_get environ ENV_GWT_PERMUTATION DEFAULT_GWT_PERMUTATION),
       header = str_or header_arg (environ_get environ ENV_GWT_HEADER DEFAULT_GWT_HEADER) \<rparr>"

text \<open>The dict literal, as the list of its items in insertion order.\<close>

definition build_gwt_headers :: "GWTConfig \<Rightarrow> (ustring \<times> ustring) list" where
  "build_gwt_headers config =
     [(lit ''content-type'', content_type config),
      (lit ''x-gwt-module-base'', module_base config),
      (lit ''x-gwt-permutation'', permutation config)]"

definition build_authenticate_body :: "GWTConfig \<Rightarrow> ustring" where
  "build_authenticate_body config =
     lit ''7|0|5|https://cronometer.com/cronometer/|'' @ header config @ lit ''|''
     @ lit ''com.cronometer.shared.rpc.CronometerService|authenticate|''
     @ lit ''java.lang.Integer/3438268394|1|2|3|4|1|5|5|-300|''"

definition build_generate_token_body :: "GWTConfig \<Rightarrow> ustring \<Rightarrow> ustring \<Rightarrow> ustring" where
  "build_generate_token_body config nonce user_id =
     lit ''7|0|8|https://cronometer.com/cronometer/|'' @ header config @ lit ''|''
     @ lit ''com.cronometer.shared.rpc.CronometerService|generateAuthorizationToken|''
     @ lit ''java.lang.String/2004016611|I|com.cronometer.shared.user.AuthScope/2065601159|''
     @ nonce @ lit ''|''
     @ lit ''1|2|3|4|4|5|6|6|7|8|'' @ user_id @ lit ''|3600|7|2|''"

definition build_logout_body :: "GWTConfig \<Rightarrow> ustring \<Rightarrow> ustring" where
  "build_logout_body config nonce =
     lit ''7|0|6|https://cronometer.com/cronometer/|'' @ header config @ lit ''|''
     @ lit ''com.cronometer.shared.rpc.CronometerService|logout|''
     @ lit ''java.lang.String/2004016611|'' @ nonce @ lit ''|1|2|3|4|1|5|6|''"

text \<open>\<^verbatim>\<open>re.compile(r"OK\[(\d+),")\<close> and \<^verbatim>\<open>re.compile(r'"(.*)"')\<close>.\<close>

definition USER_ID_PATTERN :: "rx_item list" where
  "USER_ID_PATTERN =
     [Lit (cp CHR ''O''), Lit (cp CHR ''K''), Lit (cp CHR ''[''), GOpen, Rep 1 is_digit, GClose, Lit (cp CHR '','')]"

definition TOKEN_PATTERN :: "rx_item list" where
  "TOKEN_PATTERN = [Lit DQ, GOpen, Rep 0 not_newline, GClose, Lit DQ]"

definition parse_user_id :: "ustring \<Rightarrow> ustring option" where
  "parse_user_id response_text = rx_search USER_ID_PATTERN response_text"

definition parse_auth_token :: "ustring \<Rightarrow> ustring option" where
  "parse_auth_token response_text = rx_search TOKEN_PATTERN response_text"

subsection \<open>The collaborators of auth.py: requests, BeautifulSoup, json\<close>

text \<open>
  The HTTP transport, the HTML parser and the JSON decoder are libraries outside the
  repository. They enter the model as the fields of \<open>ext\<close>: \<open>server\<close> gives the
  outcome of the newest request from the list of all requests sent so far (newest first),
  \<open>soup_find_input\<close> is
  \<^verbatim>\<open>BeautifulSoup(text, "html.parser").find("input", {"name": "anticsrf"})\<close>,
  \<open>json_loads\<close> is \<^verbatim>\<open>response.json()\<close> (\<open>None\<close> when it raises) and \<open>py_format\<close> is
  the text an f-string shows for a decoded JSON value.
\<close>

datatype http_method = GET | POST

datatype payload = NoBody | Form "(ustring \<times> ustring) list" | Raw ustring

record request =
  req_method :: http_method
  req_url :: ustring
  req_params :: "(ustring \<times> ustring) list"
  req_data :: payload
  req_headers :: "(ustring \<times> ustring) list"

record response =
  status_code :: nat
  resp_text :: ustring

text \<open>A cookie of the jar. The jar of a session is the list of its cookies in the order in
  which the jar iterates over them. Turning the \<^verbatim>\<open>Set-Cookie\<close> headers of a response into
  cookies of the jar is the work of \<^verbatim>\<open>requests\<close>; a reply carries the jar as it stands after
  the exchange.\<close>

record cookie =
  cookie_name :: ustring
  cookie_value :: "ustring option"
  cookie_domain :: ustring
  cookie_path :: ustring

datatype reply = Failed | Reply response "cookie list"

text \<open>A tag is the list of the items of its \<^verbatim>\<open>attrs\<close> dict (the keys are distinct); a
  multi-valued attribute holds a list. A decoded JSON object is the list of the items
  of its dict in the same way.\<close>

datatype attr_value = AttrStr ustring | AttrList "ustring list"

type_synonym tag = "(ustring \<times> attr_value) list"

datatype json =
    JNull
  | JBool bool
  | JNum int
  | JStr ustring
  | JArr "json list"
  | JObj "(ustring \<times> json) list"

record ext =
  server :: "request list \<Rightarrow> reply"
  soup_find_input :: "ustring \<Rightarrow> tag option"
  json_loads :: "ustring \<Rightarrow> json option"
  py_format :: "json \<Rightarrow> ustring"

text \<open>A \<^verbatim>\<open>requests.Session\<close>: its cookie jar, and the requests it has sent, newest first.\<close>

record session =
  cookies :: "cookie list"
  sent :: "request list"

definition session_send :: "ext \<Rightarrow> request \<Rightarrow> session \<Rightarrow> (error + response) \<times> session" where
  "session_send x req s =
     (let hist = req # sent s in
      case server x hist of
        Failed \<Rightarrow> (Inl RequestException, s\<lparr>sent := hist\<rparr>)
      | Reply r jar \<Rightarrow> (Inr r, s\<lparr>cookies := jar, sent := hist\<rparr>))"

text \<open>\<^verbatim>\<open>RequestsCookieJar._find_no_duplicates(name)\<close>, with \<open>toReturn\<close> as the accumulator of
  its loop: a second cookie of the name raises once a value has been seen, and a missing or
  empty value raises \<^verbatim>\<open>KeyError\<close>. \<^verbatim>\<open>RequestsCookieJar.get(name)\<close> turns the \<^verbatim>\<open>KeyError\<close> into
  \<^verbatim>\<open>None\<close> and lets the conflict through.\<close>

fun find_no_duplicates :: "ustring \<Rightarrow> cookie list \<Rightarrow> ustring option \<Rightarrow> error + ustring" where
  "find_no_duplicates name [] toReturn =
     (case toReturn of
        None \<Rightarrow> Inl KeyError
      | Some v \<Rightarrow> if v \<noteq> [] then Inr v else Inl KeyError)"
| "find_no_duplicates name (c # cs) toReturn =
     (if cookie_name c = name
      then (if toReturn \<noteq> None then Inl CookieConflictError
            else find_no_duplicates name cs (cookie_value c))
      else find_no_duplicates name cs toReturn)"

definition cookies_get :: "cookie list \<Rightarrow> ustring \<Rightarrow> error + ustring option" where
  "cookies_get jar name =
     (case find_no_duplicates name jar None of
        Inl KeyError \<Rightarrow> Inr None
      | Inl e \<Rightarrow> Inl e
      | Inr v \<Rightarrow> Inr (Some v))"

text \<open>\<^verbatim>\<open>response.raise_for_status()\<close> raises for the statuses 400 to 599 and for no other.\<close>

definition raise_for_status :: "response \<Rightarrow> error + unit" where
  "raise_for_status r =
     (if 400 \<le> status_code r \<and> status_code r < 600 then Inl (HTTPError (status_code r))
      else Inr ())"

text \<open>Python's truth value of a decoded JSON value.\<close>

fun truthy :: "json \<Rightarrow> bool" where
  "truthy JNull = False"
| "truthy (JBool b) = b"
| "truthy (JNum n) = (n \<noteq> 0)"
| "truthy (JStr s) = (s \<noteq> [])"
| "truthy (JArr xs) = (xs \<noteq> [])"
| "truthy (JObj kvs) = (kvs \<noteq> [])"

subsection \<open>auth.py\<close>

definition LOGIN_PAGE_URL :: ustring where
  "LOGIN_PAGE_URL = lit ''https://cronometer.com/login/''"

definition LOGIN_API_URL :: ustring where
  "LOGIN_API_URL = lit ''https://cronometer.com/login''"

definition GWT_API_URL :: ustring where
  "GWT_API_URL = lit ''https://cronometer.com/cronometer/app''"

definition login_page_request :: request where
  "login_page_request =
     \<lparr> req_method = GET, req_url = LOGIN_PAGE_URL, req_params = [], req_data = NoBody,
       req_headers = [] \<rparr>"

definition extract_csrf_token :: "ext \<Rightarrow> session \<Rightarrow> (error + ustring) \<times> session" where
  "extract_csrf_token x s =
     (case session_send x login_page_request s of
        (Inl e, s1) \<Rightarrow> (Inl e, s1)
      | (Inr r, s1) \<Rightarrow>
          (case raise_for_status r of
             Inl e \<Rightarrow> (Inl e, s1)
           | Inr u \<Rightarrow>
               (case soup_find_input x (resp_text r) of
                  None \<Rightarrow> (Inl (CronometerAuthError (lit ''Could not find CSRF token in login page'')), s1)
                | Some csrf_input \<Rightarrow>
                    (case map_of csrf_input (lit ''value'') of
                       Some (AttrStr csrf_value) \<Rightarrow>
                         if csrf_value = []
                         then (Inl (CronometerAuthError (lit ''CSRF token value is missing or invalid'')), s1)
                         else (Inr csrf_value, s1)
                     | Some (AttrList vs) \<Rightarrow>
                         (Inl (CronometerAuthError (lit ''CSRF token value is missing or invalid'')), s1)
                     | None \<Rightarrow>
                         (Inl (CronometerAuthError (lit ''CSRF token value is missing or invalid'')), s1)))))"

definition login_request :: "ustring \<Rightarrow> ustring \<Rightarrow> ustring \<Rightarrow> request" where
  "login_request email password csrf_token =
     \<lparr> req_method = POST, req_url = LOGIN_API_URL, req_params = [],
       req_data = Form [(lit ''username'', email), (lit ''password'', password), (lit ''anticsrf'', csrf_token)],
       req_headers = [(lit ''Content-Type'', lit ''application/x-www-form-urlencoded'')] \<rparr>"

definition perform_login ::
  "ext \<Rightarrow> ustring \<Rightarrow> ustring \<Rightarrow> ustring \<Rightarrow> session \<Rightarrow> (error + unit) \<times> session" where
  "perform_login x email password csrf_token s =
     (case session_send x (login_request email password csrf_token) s of
        (Inl e, s1) \<Rightarrow> (Inl e, s1)
      | (Inr r, s1) \<Rightarrow>
          (case raise_for_status r of
             Inl e \<Rightarrow> (Inl e, s1)
           | Inr u \<Rightarrow>
               (case json_loads x (resp_text r) of
                  None \<Rightarrow> (Inl JSONDecodeError, s1)
                | Some (JObj kvs) \<Rightarrow>
                    if (case map_of kvs (lit ''success'') of None \<Rightarrow> False | Some v \<Rightarrow> truthy v)
                    then (Inr (), s1)
                    else
                      (let error_msg =
                         (case map_of kvs (lit ''error'') of
                            None \<Rightarrow> lit ''Unknown login error''
                          | Some v \<Rightarrow> py_format x v)
                       in (Inl (CronometerAuthError (lit ''Login failed: '' @ error_msg)), s1))
                | Some other \<Rightarrow> (Inl AttributeError, s1))))"

definition gwt_request :: "GWTConfig \<Rightarrow> ustring \<Rightarrow> request" where
  "gwt_request config body =
     \<lparr> req_method = POST, req_url = GWT_API_URL, req_params = [], req_data = Raw body,
       req_headers = build_gwt_headers config \<rparr>"

definition authenticate_gwt :: "ext \<Rightarrow> GWTConfig \<Rightarrow> session \<Rightarrow> (error + ustring) \<times> session" where
  "authenticate_gwt x config s =
     (case session_send x (gwt_request config (build_authenticate_body config)) s of
        (Inl e, s1) \<Rightarrow> (Inl e, s1)
      | (Inr r, s1) \<Rightarrow>
          (case raise_for_status r of
             Inl e \<Rightarrow> (Inl e, s1)
           | Inr u \<Rightarrow>
               (case parse_user_id (resp_text r) of
                  Some user_id \<Rightarrow>
                    if user_id \<noteq> [] then (Inr user_id, s1)
                    else
                      (Inl (GWTVersionError
                         (lit ''Could not parse user ID from GWT response. ''
                          @ lit ''GWT values may be outdated. ''
                          @ lit ''Response: '' @ take 200 (resp_text r))), s1)
                | None \<Rightarrow>
                    (Inl (GWTVersionError
                       (lit ''Could not parse user ID from GWT response. ''
                        @ lit ''GWT values may be outdated. ''
                        @ lit ''Response: '' @ take 200 (resp_text r))), s1))))"

definition generate_export_token ::
  "ext \<Rightarrow> GWTConfig \<Rightarrow> ustring \<Rightarrow> ustring \<Rightarrow> session \<Rightarrow> (error + ustring) \<times> session" where
  "generate_export_token x config nonce user_id s =
     (case session_send x (gwt_request config (build_generate_token_body config nonce user_id)) s of
        (Inl e, s1) \<Rightarrow> (Inl e, s1)
      | (Inr r, s1) \<Rightarrow>
          (case raise_for_status r of
             Inl e \<Rightarrow> (Inl e, s1)
           | Inr u \<Rightarrow>
               (case parse_auth_token (resp_text r) of
                  Some token \<Rightarrow>
                    if token \<noteq> [] then (Inr token, s1)
                    else
                      (Inl (GWTVersionError
                         (lit ''Could not parse auth token from GWT response. ''
                          @ lit ''GWT values may be outdated. ''
                          @ lit ''Response: '' @ take 200 (resp_text r))), s1)
                | None \<Rightarrow>
                    (Inl (GWTVersionError
                       (lit ''Could not parse auth token from GWT response. ''
                        @ lit ''GWT values may be outdated. ''
                        @ lit ''Response: '' @ take 200 (resp_text r))), s1))))"

definition get_session_nonce :: "session \<Rightarrow> error + ustring option" where
  "get_session_nonce s = cookies_get (cookies s) (lit ''sesnonce'')"

subsection \<open>client.py: CronometerClient\<close>

record client =
  self_session :: session
  self_gwt_config :: GWTConfig
  self_user_id :: "ustring option"
  self_nonce :: "ustring option"

text \<open>\<^verbatim>\<open>CronometerClient.__init__\<close>, with a fresh \<^verbatim>\<open>requests.Session()\<close>.\<close>

definition init :: "(ustring \<rightharpoonup> ustring) \<Rightarrow> ustring option \<Rightarrow> ustring option \<Rightarrow> client" where
  "init environ gwt_permutation gwt_header =
     \<lparr> self_session = \<lparr> cookies = [], sent = [] \<rparr>,
       self_gwt_config = get_gwt_config environ gwt_permutation gwt_header,
       self_user_id = None,
       self_nonce = None \<rparr>"

definition login :: "ext \<Rightarrow> ustring \<Rightarrow> ustring \<Rightarrow> client \<Rightarrow> (error + unit) \<times> client" where
  "login x email password c =
     (case extract_csrf_token x (self_session c) of
        (Inl e, s1) \<Rightarrow> (Inl e, c\<lparr>self_session := s1\<rparr>)
      | (Inr csrf_token, s1) \<Rightarrow>
          (case perform_login x email password csrf_token s1 of
             (Inl e, s2) \<Rightarrow> (Inl e, c\<lparr>self_session := s2\<rparr>)
           | (Inr u, s2) \<Rightarrow>
               (case authenticate_gwt x (self_gwt_config c) s2 of
                  (Inl e, s3) \<Rightarrow> (Inl e, c\<lparr>self_session := s3\<rparr>)
                | (Inr user_id, s3) \<Rightarrow>
                    (case get_session_nonce s3 of
                       Inl e \<Rightarrow> (Inl e, c\<lparr>self_session := s3, self_user_id := Some user_id\<rparr>)
                     | Inr nonce \<Rightarrow>
                         (Inr (),
                          c\<lparr>self_session := s3, self_user_id := Some user_id,
                            self_nonce := nonce\<rparr>)))))"

text \<open>\<^verbatim>\<open>not v\<close> on \<^verbatim>\<open>str | None\<close>.\<close>

definition falsy :: "ustring option \<Rightarrow> bool" where
  "falsy v = (case v of None \<Rightarrow> True | Some t \<Rightarrow> t = [])"

definition ensure_authenticated :: "client \<Rightarrow> error + unit" where
  "ensure_authenticated c =
     (if falsy (self_user_id c) \<or> falsy (self_nonce c)
      then Inl (CronometerAuthError (lit ''Not authenticated. Call login() first.''))
      else Inr ())"

definition get_export_token :: "ext \<Rightarrow> client \<Rightarrow> (error + ustring) \<times> client" where
  "get_export_token x c =
     (case ensure_authenticated c of
        Inl e \<Rightarrow> (Inl e, c)
      | Inr u \<Rightarrow>
          (case self_nonce c of
             None \<Rightarrow> (Inl AssertionError, c)
           | Some nonce \<Rightarrow>
               (case self_user_id c of
                  None \<Rightarrow> (Inl AssertionError, c)
                | Some user_id \<Rightarrow>
                    (case generate_export_token x (self_gwt_config c) nonce user_id (self_session c) of
                       (res, s1) \<Rightarrow> (res, c\<lparr>self_session := s1\<rparr>)))))"

subsection \<open>Pipe-delimited segments\<close>

text \<open>\<^verbatim>\<open>sep.join(fields)\<close> and \<^verbatim>\<open>text.split(sep)\<close> for a one-character separator: the
  vocabulary in which the wire format of the request bodies is stated.\<close>

fun join_with :: "nat \<Rightarrow> ustring list \<Rightarrow> ustring" where
  "join_with c [] = []"
| "join_with c [w] = w"
| "join_with c (w # v # ws) = w @ c # join_with c (v # ws)"

fun split_on :: "nat \<Rightarrow> ustring \<Rightarrow> ustring list" where
  "split_on c [] = [[]]"
| "split_on c (x # xs) =
     (if x = c then [] # split_on c xs
      else (case split_on c xs of [] \<Rightarrow> [[x]] | w # ws \<Rightarrow> (x # w) # ws))"

subsection \<open>The patterns in the words of the specification\<close>

text \<open>A text contains the pattern \<^verbatim>\<open>OK[<digits>,\<close> when it can be cut into a prefix,
  the three characters \<^verbatim>\<open>OK[\<close>, a non-empty run of digits, a comma and a rest.\<close>

definition has_user_id_pattern :: "ustring \<Rightarrow> bool" where
  "has_user_id_pattern s =
     (\<exists>pre ds rest. ds \<noteq> [] \<and> list_all is_digit ds \<and> s = pre @ lit ''OK['' @ ds @ lit '','' @ rest)"

text \<open>A text contains a quoted run on one line when it can be cut into a prefix, a double
  quote, a stretch without a line break, a second double quote and a rest.\<close>

definition has_quoted_run :: "ustring \<Rightarrow> bool" where
  "has_quoted_run s = (\<exists>pre t rest. s = pre @ DQ # t @ DQ # rest \<and> NL \<notin> set t)"

subsection \<open>A scripted server and sample pages, for concrete runs\<close>

text \<open>The n-th request sent receives the n-th reply of the script; after the script has
  run out the transport fails.\<close>

definition scripted :: "reply list \<Rightarrow> request list \<Rightarrow> reply" where
  "scripted replies hist =
     (if hist \<noteq> [] \<and> length hist \<le> length replies then replies ! (length hist - 1) else Failed)"

definition page_with_csrf :: ustring where
  \<open>page_with_csrf = lit ''<form><input type="hidden" name="anticsrf" value="csrf123"></form>''\<close>

definition page_without_csrf :: ustring where
  \<open>page_without_csrf = lit ''<form><input type="text" name="username"></form>''\<close>

definition example_soup :: "ustring \<Rightarrow> tag option" where
  "example_soup markup =
     (if markup = page_with_csrf
      then Some [(lit ''type'', AttrStr (lit ''hidden'')), (lit ''name'', AttrStr (lit ''anticsrf'')),
                 (lit ''value'', AttrStr (lit ''csrf123''))]
      else None)"

definition example_json :: "ustring \<Rightarrow> json option" where
  \<open>example_json body =
     (if body = (lit ''{"success": true}'') then Some (JObj [(lit ''success'', JBool True)])
      else if body = lit ''{"error": "Invalid password"}''
      then Some (JObj [(lit ''error'', JStr (lit ''Invalid password''))])
      else None)\<close>

fun example_format :: "json \<Rightarrow> ustring" where
  "example_format (JStr s) = s"
| "example_format j = lit ''<json>''"

definition example_ext :: "reply list \<Rightarrow> ext" where
  "example_ext replies =
     \<lparr> server = scripted replies, soup_find_input = example_soup,
       json_loads = example_json, py_format = example_format \<rparr>"

definition example_jar :: "cookie list" where
  "example_jar =
     [\<lparr> cookie_name = lit ''sesnonce'', cookie_value = Some (lit ''n0''),
        cookie_domain = lit ''cronometer.com'', cookie_path = lit ''/'' \<rparr>]"

definition status_reply :: "nat \<Rightarrow> ustring \<Rightarrow> reply" where
  "status_reply status body = Reply \<lparr> status_code = status, resp_text = body \<rparr> example_jar"

definition ok_reply :: "ustring \<Rightarrow> reply" where
  "ok_reply body = status_reply 200 body"

definition logged_in :: client where
  "logged_in =
     \<lparr> self_session = \<lparr> cookies = example_jar, sent = [] \<rparr>,
       self_gwt_config = get_gwt_config Map.empty None None,
       self_user_id = Some (lit ''777''),
       self_nonce = Some (lit ''n0'') \<rparr>"

definition fresh_session :: session where
  "fresh_session = \<lparr> cookies = [], sent = [] \<rparr>"

section \<open>Properties\<close>

subsection \<open>Code points and literals\<close>

lemma cp_eq_iff: "cp a = cp b \<longleftrightarrow> a = b"
  by (simp add: cp_def)

lemma lit_Nil: "lit [] = []"
  by (simp add: lit_def)

lemma lit_Cons: "lit (c # s) = cp c # lit s"
  by (simp add: lit_def)

lemma lit_append: "lit (a @ b) = lit a @ lit b"
  by (simp add: lit_def)

lemma lit_eq_iff: "lit a = lit b \<longleftrightarrow> a = b"
  by (simp add: lit_def cp_def [abs_def] inj_map_eq_map inj_of_char)

lemma cp_less: "cp c < 256"
  by (simp add: cp_def)

lemma is_digit_latin: "c < 256 \<Longrightarrow> is_digit c \<longleftrightarrow> 48 \<le> c \<and> c \<le> 57"
  by (simp add: is_digit_def decimal_ranges_def)

lemma comma_not_digit: "\<not> is_digit (cp CHR '','')"
  by (simp add: is_digit_latin cp_less) (simp add: cp_def)


lemma is_digit_cp: "is_digit (cp c) \<longleftrightarrow> c \<in> set ''0123456789''"
proof -
  have "is_digit (cp c) \<longleftrightarrow> 48 \<le> cp c \<and> cp c \<le> 57"
    by (simp add: is_digit_latin cp_less)
  also have "\<dots> \<longleftrightarrow> cp c \<in> {48, 49, 50, 51, 52, 53, 54, 55, 56, 57}"
    by (simp only: insert_iff empty_iff) arith
  also have "{48, 49, 50, 51, 52, 53, 54, 55, 56, 57}
      = {cp CHR ''0'', cp CHR ''1'', cp CHR ''2'', cp CHR ''3'', cp CHR ''4'',
         cp CHR ''5'', cp CHR ''6'', cp CHR ''7'', cp CHR ''8'', cp CHR ''9''}"
    by (simp add: cp_def)
  also have "cp c \<in> {cp CHR ''0'', cp CHR ''1'', cp CHR ''2'', cp CHR ''3'', cp CHR ''4'',
         cp CHR ''5'', cp CHR ''6'', cp CHR ''7'', cp CHR ''8'', cp CHR ''9''}
      \<longleftrightarrow> c \<in> set ''0123456789''"
    by (simp only: insert_iff empty_iff cp_eq_iff set_simps)
  finally show ?thesis .
qed

lemma DQ_not_NL: "DQ \<noteq> NL"
  by (simp add: DQ_def NL_def cp_def)

lemmas lit_simps = lit_Nil lit_Cons cp_eq_iff

subsection \<open>Splitting and joining segments\<close>

lemma split_on_segment: "c \<notin> set w \<Longrightarrow> split_on c (w @ c # r) = w # split_on c r"
  by (induction w) auto

lemma split_on_last: "c \<notin> set w \<Longrightarrow> split_on c w = [w]"
  by (induction w) auto

lemma split_on_join_with:
  "ws \<noteq> [] \<Longrightarrow> (\<And>w. w \<in> set ws \<Longrightarrow> c \<notin> set w) \<Longrightarrow> split_on c (join_with c ws) = ws"
proof (induction c ws rule: join_with.induct)
  case (1 c)
  then show ?case by simp
next
  case (2 c w)
  then show ?case by (simp add: split_on_last)
next
  case (3 c w v ws)
  have "c \<notin> set w" using 3(3) by simp
  moreover have "split_on c (join_with c (v # ws)) = v # ws"
    using 3 by simp
  ultimately show ?case by (simp add: split_on_segment)
qed

lemma authenticate_body_join:
  "build_authenticate_body config =
     join_with (cp CHR ''|'')
       [lit ''7'', lit ''0'', lit ''5'', lit ''https://cronometer.com/cronometer/'', header config,
        (lit ''com.cronometer.shared.rpc.CronometerService''), lit ''authenticate'',
        (lit ''java.lang.Integer/3438268394''),
        (lit ''1''), lit ''2'', lit ''3'', lit ''4'', lit ''1'', lit ''5'', lit ''5'', lit ''-300'', []]"
  by (simp add: build_authenticate_body_def lit_simps)

lemma generate_token_body_join:
  "build_generate_token_body config nonce user_id =
     join_with (cp CHR ''|'')
       [lit ''7'', lit ''0'', lit ''8'', lit ''https://cronometer.com/cronometer/'', header config,
        (lit ''com.cronometer.shared.rpc.CronometerService''), lit ''generateAuthorizationToken'',
        (lit ''java.lang.String/2004016611''), lit ''I'',
        (lit ''com.cronometer.shared.user.AuthScope/2065601159''), nonce,
        (lit ''1''), lit ''2'', lit ''3'', lit ''4'', lit ''4'', lit ''5'', lit ''6'', lit ''6'', lit ''7'', lit ''8'',
        user_id, lit ''3600'', lit ''7'', lit ''2'', []]"
  by (simp add: build_generate_token_body_def lit_simps)

subsection \<open>The steps of the handshake\<close>

lemma session_send_Reply:
  "server x (req # sent s) = Reply r cs \<Longrightarrow>
   session_send x req s = (Inr r, s\<lparr>cookies := cs, sent := req # sent s\<rparr>)"
  by (simp add: session_send_def)

lemma raise_for_status_ok:
  "\<not> (400 \<le> status_code r \<and> status_code r < 600) \<Longrightarrow> raise_for_status r = Inr ()"
  by (simp add: raise_for_status_def)

lemma raise_for_status_error:
  "400 \<le> status_code r \<and> status_code r < 600 \<Longrightarrow> raise_for_status r = Inl (HTTPError (status_code r))"
  by (simp add: raise_for_status_def)

lemma extract_csrf_token_absent:
  assumes "server x (login_page_request # sent s) = Reply r cs"
    and "\<not> (400 \<le> status_code r \<and> status_code r < 600)"
    and "soup_find_input x (resp_text r) = None"
  shows "extract_csrf_token x s =
           (Inl (CronometerAuthError (lit ''Could not find CSRF token in login page'')),
            s\<lparr>cookies := cs, sent := login_page_request # sent s\<rparr>)"
  using assms
  by (simp add: extract_csrf_token_def session_send_Reply raise_for_status_ok)

lemma extract_csrf_token_no_value:
  assumes "server x (login_page_request # sent s) = Reply r cs"
    and "\<not> (400 \<le> status_code r \<and> status_code r < 600)"
    and "soup_find_input x (resp_text r) = Some csrf_input"
    and "map_of csrf_input (lit ''value'') = None \<or> map_of csrf_input (lit ''value'') = Some (AttrStr [])"
  shows "extract_csrf_token x s =
           (Inl (CronometerAuthError (lit ''CSRF token value is missing or invalid'')),
            s\<lparr>cookies := cs, sent := login_page_request # sent s\<rparr>)"
  using assms
  by (auto simp add: extract_csrf_token_def session_send_Reply raise_for_status_ok)

lemma login_csrf_failure:
  "extract_csrf_token x (self_session c) = (Inl e, s1) \<Longrightarrow>
   login x email password c = (Inl e, c\<lparr>self_session := s1\<rparr>)"
  by (simp add: login_def)

lemma ensure_authenticated_falsy:
  "falsy (self_user_id c) \<or> falsy (self_nonce c) \<Longrightarrow>
   ensure_authenticated c = Inl (CronometerAuthError (lit ''Not authenticated. Call login() first.''))"
  by (simp add: ensure_authenticated_def)

lemma perform_login_http_error:
  assumes "server x (login_request email password csrf_token # sent s) = Reply r cs"
    and "400 \<le> status_code r \<and> status_code r < 600"
  shows "perform_login x email password csrf_token s =
           (Inl (HTTPError (status_code r)),
            s\<lparr>cookies := cs,
              sent := login_request email password csrf_token # sent s\<rparr>)"
  using assms
  by (simp add: perform_login_def session_send_Reply raise_for_status_error)

lemma perform_login_not_success:
  assumes "server x (login_request email password csrf_token # sent s) = Reply r cs"
    and "\<not> (400 \<le> status_code r \<and> status_code r < 600)"
    and "json_loads x (resp_text r) = Some (JObj kvs)"
    and "map_of kvs (lit ''success'') = None \<or> (\<exists>v. map_of kvs (lit ''success'') = Some v \<and> \<not> truthy v)"
  shows "perform_login x email password csrf_token s =
           (Inl (CronometerAuthError
              (lit ''Login failed: ''
               @ (case map_of kvs (lit ''error'') of
                    None \<Rightarrow> lit ''Unknown login error''
                  | Some v \<Rightarrow> py_format x v))),
            s\<lparr>cookies := cs,
              sent := login_request email password csrf_token # sent s\<rparr>)"
  using assms
  by (auto simp add: perform_login_def session_send_Reply raise_for_status_ok)

lemma login_credentials_failure:
  "extract_csrf_token x (self_session c) = (Inr csrf_token, s1) \<Longrightarrow>
   perform_login x email password csrf_token s1 = (Inl e, s2) \<Longrightarrow>
   login x email password c = (Inl e, c\<lparr>self_session := s2\<rparr>)"
  by (simp add: login_def)

lemma login_gwt_failure:
  "extract_csrf_token x (self_session c) = (Inr csrf_token, s1) \<Longrightarrow>
   perform_login x email password csrf_token s1 = (Inr u, s2) \<Longrightarrow>
   authenticate_gwt x (self_gwt_config c) s2 = (Inl e, s3) \<Longrightarrow>
   login x email password c = (Inl e, c\<lparr>self_session := s3\<rparr>)"
  by (simp add: login_def)

lemma authenticate_gwt_unparsed:
  assumes "server x (gwt_request config (build_authenticate_body config) # sent s) = Reply r cs"
    and "\<not> (400 \<le> status_code r \<and> status_code r < 600)"
    and "parse_user_id (resp_text r) = None"
  shows "authenticate_gwt x config s =
           (Inl (GWTVersionError
              (lit ''Could not parse user ID from GWT response. GWT values may be outdated. Response: ''
               @ take 200 (resp_text r))),
            s\<lparr>cookies := cs,
              sent := gwt_request config (build_authenticate_body config) # sent s\<rparr>)"
  using assms
  by (simp add: authenticate_gwt_def session_send_Reply raise_for_status_ok lit_simps)

lemma generate_export_token_unparsed:
  assumes "server x (gwt_request config (build_generate_token_body config nonce user_id) # sent s)
             = Reply r cs"
    and "\<not> (400 \<le> status_code r \<and> status_code r < 600)"
    and "parse_auth_token (resp_text r) = None \<or> parse_auth_token (resp_text r) = Some []"
  shows "generate_export_token x config nonce user_id s =
           (Inl (GWTVersionError
              (lit ''Could not parse auth token from GWT response. GWT values may be outdated. Response: ''
               @ take 200 (resp_text r))),
            s\<lparr>cookies := cs,
              sent := gwt_request config (build_generate_token_body config nonce user_id) # sent s\<rparr>)"
  using assms
  by (auto simp add: generate_export_token_def session_send_Reply raise_for_status_ok lit_simps)

lemma generate_export_token_nonempty:
  "fst (generate_export_token x config nonce user_id s) \<noteq> Inr []"
  by (auto simp add: generate_export_token_def split: prod.splits sum.splits option.splits)

subsection \<open>Leftmost search\<close>

lemma first_some_None:
  "(\<And>k. k \<in> set ks \<Longrightarrow> f k = None) \<Longrightarrow> first_some f ks = None"
  by (induction ks) auto

lemma first_some_rev_upt_skip:
  "k \<le> n \<Longrightarrow> (\<And>j. k < j \<Longrightarrow> j \<le> n \<Longrightarrow> f j = None) \<Longrightarrow>
   first_some f (rev [m ..< Suc n]) = first_some f (rev [m ..< Suc k])"
proof (induction n)
  case 0
  then show ?case by simp
next
  case (Suc n)
  show ?case
  proof (cases "k = Suc n")
    case True
    then show ?thesis by simp
  next
    case False
    with Suc.prems have kn: "k \<le> n" by simp
    have "f (Suc n) = None" using Suc.prems False by simp
    moreover have "first_some f (rev [m ..< Suc n]) = first_some f (rev [m ..< Suc k])"
      using Suc.IH [OF kn] Suc.prems(2) by simp
    ultimately show ?thesis by (cases "m \<le> Suc n") simp_all
  qed
qed

lemma rx_search_of_match:
  "rx_match p t False [] = Some u \<Longrightarrow> rx_search p t = Some u"
  by (cases t) simp_all

lemma rx_search_skip:
  "(\<And>a1 a2. a = a1 @ a2 \<Longrightarrow> a2 \<noteq> [] \<Longrightarrow> rx_match p (a2 @ t) False [] = None) \<Longrightarrow>
   rx_search p (a @ t) = rx_search p t"
proof (induction a)
  case Nil
  then show ?case by simp
next
  case (Cons x a)
  have "rx_match p ((x # a) @ t) False [] = None"
    using Cons.prems [of "[]" "x # a"] by simp
  moreover have "rx_search p (a @ t) = rx_search p t"
  proof (rule Cons.IH)
    fix a1 a2 assume "a = a1 @ a2" "a2 \<noteq> []"
    then show "rx_match p (a2 @ t) False [] = None"
      using Cons.prems [of "x # a1" a2] by simp
  qed
  ultimately show ?case by simp
qed

lemma rx_search_None_iff:
  "rx_search p s = None \<longleftrightarrow> (\<forall>a t. s = a @ t \<longrightarrow> rx_match p t False [] = None)"
proof (induction s)
  case Nil
  then show ?case by simp
next
  case (Cons x s)
  show ?case
  proof
    assume n: "rx_search p (x # s) = None"
    then have m: "rx_match p (x # s) False [] = None" and r: "rx_search p s = None"
      by (auto split: option.splits)
    show "\<forall>a t. x # s = a @ t \<longrightarrow> rx_match p t False [] = None"
    proof (intro allI impI)
      fix a t assume e: "x # s = a @ t"
      show "rx_match p t False [] = None"
      proof (cases a)
        case Nil
        with e m show ?thesis by simp
      next
        case (Cons y a')
        with e have "s = a' @ t" by simp
        with r Cons.IH show ?thesis by blast
      qed
    qed
  next
    assume h: "\<forall>a t. x # s = a @ t \<longrightarrow> rx_match p t False [] = None"
    then have m: "rx_match p (x # s) False [] = None" by (metis append_Nil)
    have "\<forall>a t. s = a @ t \<longrightarrow> rx_match p t False [] = None"
      using h by (metis append_Cons)
    with Cons.IH have "rx_search p s = None" by blast
    with m show "rx_search p (x # s) = None" by simp
  qed
qed

lemma rx_search_Some_split:
  "rx_search p s = Some u \<Longrightarrow>
   \<exists>a t. s = a @ t \<and> rx_match p t False [] = Some u
     \<and> (\<forall>a1 a2. a = a1 @ a2 \<and> a2 \<noteq> [] \<longrightarrow> rx_match p (a2 @ t) False [] = None)"
proof (induction s)
  case Nil
  then show ?case by simp
next
  case (Cons x s)
  show ?case
  proof (cases "rx_match p (x # s) False []")
    case (Some v)
    with Cons.prems have "v = u" by simp
    with Some have "x # s = [] @ (x # s) \<and> rx_match p (x # s) False [] = Some u
      \<and> (\<forall>a1 a2. [] = a1 @ a2 \<and> a2 \<noteq> [] \<longrightarrow> rx_match p (a2 @ (x # s)) False [] = None)"
      by simp
    then show ?thesis by blast
  next
    case None
    with Cons.prems have "rx_search p s = Some u" by simp
    from Cons.IH [OF this] obtain a t where
      s: "s = a @ t" and m: "rx_match p t False [] = Some u"
      and l: "\<forall>a1 a2. a = a1 @ a2 \<and> a2 \<noteq> [] \<longrightarrow> rx_match p (a2 @ t) False [] = None"
      by blast
    have "\<forall>a1 a2. x # a = a1 @ a2 \<and> a2 \<noteq> [] \<longrightarrow> rx_match p (a2 @ t) False [] = None"
    proof (intro allI impI)
      fix a1 a2 assume e: "x # a = a1 @ a2 \<and> a2 \<noteq> []"
      show "rx_match p (a2 @ t) False [] = None"
      proof (cases a1)
        case Nil
        with e have "a2 = x # a" by simp
        with s None show ?thesis by simp
      next
        case (Cons y a1')
        with e have "a = a1' @ a2 \<and> a2 \<noteq> []" by simp
        with l show ?thesis by blast
      qed
    qed
    with s m have "x # s = (x # a) @ t \<and> rx_match p t False [] = Some u
      \<and> (\<forall>a1 a2. x # a = a1 @ a2 \<and> a2 \<noteq> [] \<longrightarrow> rx_match p (a2 @ t) False [] = None)"
      by simp
    then show ?thesis by blast
  qed
qed

subsection \<open>The user id pattern\<close>

lemma drop_in_takeWhile:
  assumes "j < length (takeWhile P r)"
  shows "\<exists>t. drop j r = r ! j # t \<and> P (r ! j)"
proof -
  have jl: "j < length r"
    using assms length_takeWhile_le [of P r] by simp
  have "takeWhile P r ! j \<in> set (takeWhile P r)"
    using assms by simp
  then have "P (takeWhile P r ! j)"
    by (rule set_takeWhileD [THEN conjunct2])
  then have "P (r ! j)"
    using assms by (simp add: takeWhile_nth)
  moreover have "drop j r = r ! j # drop (Suc j) r"
    using jl by (simp add: Cons_nth_drop_Suc)
  ultimately show ?thesis by blast
qed

lemma first_some_rev_upt_top:
  "m \<le> n \<Longrightarrow>
   first_some f (rev [m ..< Suc n])
     = (case f n of Some v \<Rightarrow> Some v | None \<Rightarrow> first_some f (rev [m ..< n]))"
  by simp

lemma close_then_lit:
  "rx_match [GClose, Lit a] d True cap = (if \<exists>t. d = a # t then Some cap else None)"
  by (cases d) simp_all

lemma rep_digits_then_comma:
  "first_some (\<lambda>k. rx_match [GClose, Lit (cp CHR '','')] (drop k r) True (take k r))
     (rev [1 ..< Suc (length (takeWhile is_digit r))])
   = (if takeWhile is_digit r \<noteq> [] \<and> (\<exists>t. dropWhile is_digit r = (cp CHR '','') # t)
      then Some (takeWhile is_digit r) else None)"
proof (cases "takeWhile is_digit r = []")
  case True
  then show ?thesis by simp
next
  case False
  let ?n = "length (takeWhile is_digit r)"
  let ?f = "\<lambda>k. rx_match [GClose, Lit (cp CHR '','')] (drop k r) True (take k r)"
  have n: "1 \<le> ?n" using False by (cases "takeWhile is_digit r") simp_all
  have shorter: "first_some ?f (rev [1 ..< ?n]) = None"
  proof (rule first_some_None)
    fix k assume "k \<in> set (rev [1 ..< ?n])"
    then have "k < ?n" by simp
    from drop_in_takeWhile [OF this] obtain t where
      "drop k r = r ! k # t" and "is_digit (r ! k)" by blast
    then show "?f k = None"
      using comma_not_digit by auto
  qed
  have at_n: "?f ?n = (if \<exists>t. dropWhile is_digit r = (cp CHR '','') # t
                      then Some (takeWhile is_digit r) else None)"
  proof -
    have "?f ?n = rx_match [GClose, Lit (cp CHR '','')] (dropWhile is_digit r) True (takeWhile is_digit r)"
      by (simp only: dropWhile_eq_drop [symmetric] takeWhile_eq_take [symmetric])
    also have "\<dots> = (if \<exists>t. dropWhile is_digit r = (cp CHR '','') # t
                      then Some (takeWhile is_digit r) else None)"
      by (rule close_then_lit)
    finally show ?thesis .
  qed
  have "first_some ?f (rev [1 ..< Suc ?n])
      = (case ?f ?n of Some v \<Rightarrow> Some v | None \<Rightarrow> first_some ?f (rev [1 ..< ?n]))"
    using n by (rule first_some_rev_upt_top)
  also have "\<dots> = (if \<exists>t. dropWhile is_digit r = (cp CHR '','') # t
                      then Some (takeWhile is_digit r) else None)"
    unfolding shorter at_n by simp
  finally show ?thesis using False by simp
qed

lemma user_id_match_closed:
  "rx_match USER_ID_PATTERN s False [] =
     (case s of
        a # b # c # r \<Rightarrow>
          if a = (cp CHR ''O'') \<and> b = (cp CHR ''K'') \<and> c = (cp CHR ''['')
             \<and> takeWhile is_digit r \<noteq> [] \<and> (\<exists>t. dropWhile is_digit r = (cp CHR '','') # t)
          then Some (takeWhile is_digit r) else None
      | _ \<Rightarrow> None)"
proof -
  have tail: "rx_match [GOpen, Rep (Suc 0) is_digit, GClose, Lit (cp CHR '','')] r False [] =
    (if takeWhile is_digit r \<noteq> [] \<and> (\<exists>t. dropWhile is_digit r = (cp CHR '','') # t)
      then Some (takeWhile is_digit r) else None)" for r
    using rep_digits_then_comma [of r] by simp
  show ?thesis
    unfolding USER_ID_PATTERN_def
    by (simp add: tail split: list.splits del: rx_match.simps
        add: rx_match.simps(2) [of "Lit _"])
qed

lemma takeWhile_digits_comma:
  "list_all is_digit u \<Longrightarrow> takeWhile is_digit (u @ (cp CHR '','') # rest) = u"
  by (induction u) (simp_all add: comma_not_digit)

lemma dropWhile_digits_comma:
  "list_all is_digit u \<Longrightarrow> dropWhile is_digit (u @ (cp CHR '','') # rest) = (cp CHR '','') # rest"
  by (induction u) (simp_all add: comma_not_digit)

lemma user_id_match_iff:
  "rx_match USER_ID_PATTERN s False [] = Some u \<longleftrightarrow>
     u \<noteq> [] \<and> list_all is_digit u \<and> (\<exists>rest. s = lit ''OK['' @ u @ lit '','' @ rest)"
proof
  assume m: "rx_match USER_ID_PATTERN s False [] = Some u"
  then obtain r t where s: "s = (cp CHR ''O'') # (cp CHR ''K'') # (cp CHR ''['') # r"
    and u: "u = takeWhile is_digit r" and ne: "takeWhile is_digit r \<noteq> []"
    and d: "dropWhile is_digit r = (cp CHR '','') # t"
    unfolding user_id_match_closed
    by (auto split: list.splits if_splits)
  have "r = takeWhile is_digit r @ dropWhile is_digit r" by simp
  then have "r = u @ (cp CHR '','') # t" using u d by simp
  then have "s = lit ''OK['' @ u @ lit '','' @ t" using s by (simp add: lit_simps)
  then have "\<exists>rest. s = lit ''OK['' @ u @ lit '','' @ rest" by (rule exI)
  moreover have "list_all is_digit u"
    unfolding u by (simp add: list_all_iff) (meson set_takeWhileD)
  moreover have "u \<noteq> []" using u ne by simp
  ultimately show "u \<noteq> [] \<and> list_all is_digit u \<and> (\<exists>rest. s = lit ''OK['' @ u @ lit '','' @ rest)"
    by blast
next
  assume "u \<noteq> [] \<and> list_all is_digit u \<and> (\<exists>rest. s = lit ''OK['' @ u @ lit '','' @ rest)"
  then obtain rest where ne: "u \<noteq> []" and dg: "list_all is_digit u"
    and s: "s = lit ''OK['' @ u @ lit '','' @ rest" by blast
  show "rx_match USER_ID_PATTERN s False [] = Some u"
    unfolding user_id_match_closed s
    using ne by (simp add: lit_simps takeWhile_digits_comma [OF dg] dropWhile_digits_comma [OF dg])
qed





lemma parse_user_id_None_iff:
  "parse_user_id s = None \<longleftrightarrow> \<not> has_user_id_pattern s"
proof
  assume n: "parse_user_id s = None"
  show "\<not> has_user_id_pattern s"
  proof
    assume "has_user_id_pattern s"
    then obtain pre ds rest where ds: "ds \<noteq> []" "list_all is_digit ds"
      and s: "s = pre @ lit ''OK['' @ ds @ lit '','' @ rest"
      unfolding has_user_id_pattern_def by blast
    have "rx_match USER_ID_PATTERN (lit ''OK['' @ ds @ lit '','' @ rest) False [] = Some ds"
      unfolding user_id_match_iff using ds by blast
    moreover have "rx_match USER_ID_PATTERN (lit ''OK['' @ ds @ lit '','' @ rest) False [] = None"
      using n s unfolding parse_user_id_def rx_search_None_iff by blast
    ultimately show False by simp
  qed
next
  assume h: "\<not> has_user_id_pattern s"
  show "parse_user_id s = None"
    unfolding parse_user_id_def rx_search_None_iff
  proof (intro allI impI)
    fix a t assume s: "s = a @ t"
    show "rx_match USER_ID_PATTERN t False [] = None"
    proof (cases "rx_match USER_ID_PATTERN t False []")
      case None
      then show ?thesis .
    next
      case (Some u)
      then obtain rest where "u \<noteq> []" "list_all is_digit u" "t = lit ''OK['' @ u @ lit '','' @ rest"
        unfolding user_id_match_iff by blast
      with s have "has_user_id_pattern s"
        unfolding has_user_id_pattern_def by blast
      with h show ?thesis by simp
    qed
  qed
qed



subsection \<open>The token pattern\<close>

lemma token_match_closed:
  "rx_match TOKEN_PATTERN s False [] =
     (case s of
        [] \<Rightarrow> None
      | x # r \<Rightarrow>
          if x = DQ
          then first_some (\<lambda>k. if \<exists>u. drop k r = DQ # u then Some (take k r) else None)
                 (rev [0 ..< Suc (length (takeWhile not_newline r))])
          else None)"
  unfolding TOKEN_PATTERN_def
  by (simp add: close_then_lit split: list.splits del: rx_match.simps
      add: rx_match.simps(2) [of "Lit _"] rx_match.simps(2) [of "GOpen"] rx_match.simps(2) [of "Rep _ _"])

lemma drop_line_end:
  "\<not> (\<exists>u. drop (length (takeWhile not_newline r)) r = DQ # u)"
proof
  assume "\<exists>u. drop (length (takeWhile not_newline r)) r = DQ # u"
  then obtain u where "dropWhile not_newline r = DQ # u"
    by (auto simp add: dropWhile_eq_drop)
  then have "\<not> not_newline DQ"
    using hd_dropWhile [of not_newline r] by simp
  then show False
    by (simp add: not_newline_def DQ_not_NL)
qed

lemma drop_in_line:
  assumes "k < length (takeWhile not_newline r)"
  shows "(\<exists>u. drop k r = DQ # u) \<longleftrightarrow> takeWhile not_newline r ! k = DQ"
proof -
  from drop_in_takeWhile [OF assms] obtain t where "drop k r = r ! k # t" by blast
  moreover have "takeWhile not_newline r ! k = r ! k"
    using assms by (rule takeWhile_nth)
  ultimately show ?thesis by simp
qed

lemma token_scan_None:
  assumes "DQ \<notin> set (takeWhile not_newline r)"
  shows "first_some (\<lambda>k. if \<exists>u. drop k r = DQ # u then Some (take k r) else None)
           (rev [0 ..< Suc (length (takeWhile not_newline r))]) = None"
proof (rule first_some_None)
  fix k assume "k \<in> set (rev [0 ..< Suc (length (takeWhile not_newline r))])"
  then have "k < length (takeWhile not_newline r) \<or> k = length (takeWhile not_newline r)"
    by auto
  then have "\<not> (\<exists>u. drop k r = DQ # u)"
  proof
    assume k: "k < length (takeWhile not_newline r)"
    then have "takeWhile not_newline r ! k \<in> set (takeWhile not_newline r)" by simp
    with assms have "takeWhile not_newline r ! k \<noteq> DQ" by auto
    with drop_in_line [OF k] show ?thesis by simp
  next
    assume "k = length (takeWhile not_newline r)"
    then show ?thesis using drop_line_end by simp
  qed
  then show "(if \<exists>u. drop k r = DQ # u then Some (take k r) else None) = None" by simp
qed

lemma token_scan_Some:
  assumes l: "takeWhile not_newline r = t @ DQ # q" and q: "DQ \<notin> set q"
  shows "first_some (\<lambda>k. if \<exists>u. drop k r = DQ # u then Some (take k r) else None)
           (rev [0 ..< Suc (length (takeWhile not_newline r))]) = Some t"
proof -
  let ?f = "\<lambda>k. if \<exists>u. drop k r = DQ # u then Some (take k r) else None"
  let ?n = "length (takeWhile not_newline r)"
  have n: "?n = length t + 1 + length q" using l by simp
  have after: "?f j = None" if "length t < j" "j \<le> ?n" for j
  proof (cases "j = ?n")
    case True
    then show ?thesis using drop_line_end by simp
  next
    case False
    with that have j: "j < ?n" by simp
    have "takeWhile not_newline r ! j = q ! (j - length t - 1)"
      using that(1) unfolding l by (simp add: nth_append nth_Cons')
    moreover have "q ! (j - length t - 1) \<in> set q"
      using j that(1) n by simp
    ultimately have "takeWhile not_newline r ! j \<noteq> DQ" using q by auto
    with drop_in_line [OF j] show ?thesis by simp
  qed
  have k0: "length t < ?n" using n by simp
  have "takeWhile not_newline r ! length t = DQ" unfolding l by simp
  with drop_in_line [OF k0] have "\<exists>u. drop (length t) r = DQ # u" by simp
  moreover have "take (length t) r = t"
  proof -
    have "take (length t) r = take (length t) (take ?n r)"
      using k0 by (simp add: min_def)
    also have "take ?n r = takeWhile not_newline r"
      by (simp add: takeWhile_eq_take [symmetric])
    finally show ?thesis unfolding l by simp
  qed
  ultimately have at: "?f (length t) = Some t" by simp
  have "first_some ?f (rev [0 ..< Suc ?n]) = first_some ?f (rev [0 ..< Suc (length t)])"
    using k0 after by (intro first_some_rev_upt_skip) simp_all
  also have "\<dots> = (case ?f (length t) of Some v \<Rightarrow> Some v
                     | None \<Rightarrow> first_some ?f (rev [0 ..< length t]))"
    by (rule first_some_rev_upt_top) simp
  finally show ?thesis unfolding at by simp
qed

lemma token_match_None_closed:
  "rx_match TOKEN_PATTERN s False [] = None \<longleftrightarrow>
     (case s of [] \<Rightarrow> True | x # r \<Rightarrow> x \<noteq> DQ \<or> DQ \<notin> set (takeWhile not_newline r))"
proof (cases s)
  case Nil
  then show ?thesis by (simp add: token_match_closed)
next
  case (Cons x r)
  show ?thesis
  proof (cases "x = DQ \<and> DQ \<in> set (takeWhile not_newline r)")
    case True
    then obtain t q where "takeWhile not_newline r = t @ DQ # q" "DQ \<notin> set q"
      using split_list_last [of DQ "takeWhile not_newline r"] by blast
    from token_scan_Some [OF this] True Cons show ?thesis
      by (simp add: token_match_closed)
  next
    case False
    then show ?thesis
      using Cons token_scan_None [of r] by (auto simp add: token_match_closed)
  qed
qed

lemma token_match_Some_closed:
  "rx_match TOKEN_PATTERN s False [] = Some t \<longleftrightarrow>
     (\<exists>r q. s = DQ # r \<and> takeWhile not_newline r = t @ DQ # q \<and> DQ \<notin> set q)"
proof
  assume m: "rx_match TOKEN_PATTERN s False [] = Some t"
  then have "rx_match TOKEN_PATTERN s False [] \<noteq> None" by simp
  then obtain r where s: "s = DQ # r" and d: "DQ \<in> set (takeWhile not_newline r)"
    unfolding token_match_None_closed by (auto split: list.splits)
  from d obtain t' q where l: "takeWhile not_newline r = t' @ DQ # q" "DQ \<notin> set q"
    using split_list_last [of DQ "takeWhile not_newline r"] by blast
  from token_scan_Some [OF l] s have "rx_match TOKEN_PATTERN s False [] = Some t'"
    by (simp add: token_match_closed)
  with m have "t' = t" by simp
  with s l show "\<exists>r q. s = DQ # r \<and> takeWhile not_newline r = t @ DQ # q \<and> DQ \<notin> set q"
    by blast
next
  assume "\<exists>r q. s = DQ # r \<and> takeWhile not_newline r = t @ DQ # q \<and> DQ \<notin> set q"
  then obtain r q where s: "s = DQ # r" and l: "takeWhile not_newline r = t @ DQ # q" "DQ \<notin> set q"
    by blast
  from token_scan_Some [OF l] s show "rx_match TOKEN_PATTERN s False [] = Some t"
    by (simp add: token_match_closed)
qed

lemma takeWhile_line_end:
  assumes "NL \<notin> set l" and "d = [] \<or> (\<exists>d'. d = NL # d')"
  shows "takeWhile not_newline (l @ d) = l" and "dropWhile not_newline (l @ d) = d"
proof -
  have all: "\<And>c. c \<in> set l \<Longrightarrow> not_newline c"
    using assms(1) by (auto simp add: not_newline_def)
  have "takeWhile not_newline d = []" and "dropWhile not_newline d = d"
    using assms(2) by (auto simp add: not_newline_def)
  then show "takeWhile not_newline (l @ d) = l" and "dropWhile not_newline (l @ d) = d"
    using all by (simp_all add: takeWhile_append2 dropWhile_append2)
qed

lemma line_decomposition:
  "NL \<notin> set (takeWhile not_newline r)
   \<and> (dropWhile not_newline r = [] \<or> (\<exists>d'. dropWhile not_newline r = NL # d'))"
proof
  show "NL \<notin> set (takeWhile not_newline r)"
    using set_takeWhileD [of NL not_newline r] by (auto simp add: not_newline_def)
  show "dropWhile not_newline r = [] \<or> (\<exists>d'. dropWhile not_newline r = NL # d')"
  proof (cases "dropWhile not_newline r")
    case Nil
    then show ?thesis by simp
  next
    case (Cons c d')
    then have "\<not> not_newline c"
      using hd_dropWhile [of not_newline r] by simp
    with Cons show ?thesis by (simp add: not_newline_def)
  qed
qed

lemma quote_in_line_append:
  "DQ \<in> set (takeWhile not_newline (a @ DQ # y)) \<longleftrightarrow> DQ \<in> set (takeWhile not_newline (a @ [DQ]))"
proof (cases "NL \<in> set a")
  case True
  then have "takeWhile not_newline (a @ DQ # y) = takeWhile not_newline a"
    and "takeWhile not_newline (a @ [DQ]) = takeWhile not_newline a"
    by (simp_all add: takeWhile_append1 [of NL] not_newline_def)
  then show ?thesis by simp
next
  case False
  then have all: "\<And>c. c \<in> set a \<Longrightarrow> not_newline c"
    by (auto simp add: not_newline_def)
  have "not_newline DQ" by (simp add: not_newline_def DQ_not_NL)
  then show ?thesis
    using all by (simp add: takeWhile_append2)
qed

lemma token_match_open_iff:
  assumes "a \<noteq> []"
  shows "rx_match TOKEN_PATTERN (a @ DQ # y) False [] = None
         \<longleftrightarrow> rx_match TOKEN_PATTERN (a @ [DQ]) False [] = None"
proof -
  from assms obtain x a' where a: "a = x # a'" by (cases a) auto
  show ?thesis
    unfolding token_match_None_closed a
    using quote_in_line_append [of a' y] by simp
qed

lemma token_match_None_iff_run:
  "rx_match TOKEN_PATTERN s False [] = None
   \<longleftrightarrow> \<not> (\<exists>t rest. s = DQ # t @ DQ # rest \<and> NL \<notin> set t)"
proof
  assume n: "rx_match TOKEN_PATTERN s False [] = None"
  show "\<not> (\<exists>t rest. s = DQ # t @ DQ # rest \<and> NL \<notin> set t)"
  proof
    assume "\<exists>t rest. s = DQ # t @ DQ # rest \<and> NL \<notin> set t"
    then obtain t rest where s: "s = DQ # t @ DQ # rest" and t: "NL \<notin> set t" by blast
    have "\<And>c. c \<in> set t \<Longrightarrow> not_newline c"
      using t by (auto simp add: not_newline_def)
    then have "takeWhile not_newline (t @ DQ # rest) = t @ DQ # takeWhile not_newline rest"
      by (simp add: takeWhile_append2 not_newline_def DQ_not_NL)
    then have "DQ \<in> set (takeWhile not_newline (t @ DQ # rest))" by simp
    with n s show False by (simp add: token_match_None_closed)
  qed
next
  assume h: "\<not> (\<exists>t rest. s = DQ # t @ DQ # rest \<and> NL \<notin> set t)"
  show "rx_match TOKEN_PATTERN s False [] = None"
  proof (cases "rx_match TOKEN_PATTERN s False []")
    case None
    then show ?thesis .
  next
    case (Some t)
    then obtain r q where s: "s = DQ # r" and l: "takeWhile not_newline r = t @ DQ # q"
      unfolding token_match_Some_closed by blast
    have "r = (t @ DQ # q) @ dropWhile not_newline r"
      using takeWhile_dropWhile_id [of not_newline r] l by simp
    then have "s = DQ # t @ DQ # (q @ dropWhile not_newline r)"
      using s by simp
    moreover have "NL \<notin> set t"
      using line_decomposition [of r] l by simp
    ultimately show ?thesis using h by blast
  qed
qed

lemma parse_auth_token_None_iff:
  "parse_auth_token s = None \<longleftrightarrow> \<not> has_quoted_run s"
proof
  assume n: "parse_auth_token s = None"
  show "\<not> has_quoted_run s"
  proof
    assume "has_quoted_run s"
    then obtain pre t rest where s: "s = pre @ DQ # t @ DQ # rest" and t: "NL \<notin> set t"
      unfolding has_quoted_run_def by blast
    have "rx_match TOKEN_PATTERN (DQ # t @ DQ # rest) False [] = None"
      using n s unfolding parse_auth_token_def rx_search_None_iff by blast
    then show False
      unfolding token_match_None_iff_run using t by blast
  qed
next
  assume h: "\<not> has_quoted_run s"
  show "parse_auth_token s = None"
    unfolding parse_auth_token_def rx_search_None_iff
  proof (intro allI impI)
    fix a t0 assume s: "s = a @ t0"
    show "rx_match TOKEN_PATTERN t0 False [] = None"
      unfolding token_match_None_iff_run
    proof
      assume "\<exists>t rest. t0 = DQ # t @ DQ # rest \<and> NL \<notin> set t"
      then obtain t rest where "t0 = DQ # t @ DQ # rest" "NL \<notin> set t" by blast
      with s have "has_quoted_run s" unfolding has_quoted_run_def by blast
      with h show False by simp
    qed
  qed
qed

lemma parse_auth_token_framed:
  assumes "\<not> has_quoted_run (pre @ [DQ])"
    and "NL \<notin> set t" and "NL \<notin> set q" and "DQ \<notin> set q"
    and "d = [] \<or> (\<exists>d'. d = NL # d')"
  shows "parse_auth_token (pre @ DQ # t @ DQ # q @ d) = Some t"
proof -
  let ?y = "t @ DQ # q @ d"
  have "NL \<notin> set (t @ DQ # q)"
    using assms(2,3) DQ_not_NL by auto
  from takeWhile_line_end(1) [OF this assms(5)]
  have "takeWhile not_newline ?y = t @ DQ # q" by simp
  then have m: "rx_match TOKEN_PATTERN (DQ # ?y) False [] = Some t"
    unfolding token_match_Some_closed using assms(4) by blast
  have none: "parse_auth_token (pre @ [DQ]) = None"
    using assms(1) by (simp add: parse_auth_token_None_iff)
  have "rx_search TOKEN_PATTERN (pre @ DQ # ?y) = rx_search TOKEN_PATTERN (DQ # ?y)"
  proof (rule rx_search_skip)
    fix a1 a2 assume p: "pre = a1 @ a2" and ne: "a2 \<noteq> []"
    have "pre @ [DQ] = a1 @ (a2 @ [DQ])" using p by simp
    with none have "rx_match TOKEN_PATTERN (a2 @ [DQ]) False [] = None"
      unfolding parse_auth_token_def rx_search_None_iff by blast
    then show "rx_match TOKEN_PATTERN (a2 @ DQ # ?y) False [] = None"
      using token_match_open_iff [OF ne, of ?y] by blast
  qed
  also have "\<dots> = Some t" using m by (rule rx_search_of_match)
  finally show ?thesis unfolding parse_auth_token_def .
qed

lemma parse_auth_token_Some_split:
  assumes "parse_auth_token s = Some t"
  shows "\<exists>pre q d. s = pre @ DQ # t @ DQ # q @ d
           \<and> \<not> has_quoted_run (pre @ [DQ])
           \<and> NL \<notin> set t \<and> NL \<notin> set q \<and> DQ \<notin> set q
           \<and> (d = [] \<or> (\<exists>d'. d = NL # d'))"
proof -
  from assms obtain a t0 where s: "s = a @ t0"
    and m: "rx_match TOKEN_PATTERN t0 False [] = Some t"
    and l: "\<forall>a1 a2. a = a1 @ a2 \<and> a2 \<noteq> [] \<longrightarrow> rx_match TOKEN_PATTERN (a2 @ t0) False [] = None"
    unfolding parse_auth_token_def using rx_search_Some_split by blast
  from m obtain r q where t0: "t0 = DQ # r" and ln: "takeWhile not_newline r = t @ DQ # q"
    and q: "DQ \<notin> set q"
    unfolding token_match_Some_closed by blast
  let ?d = "dropWhile not_newline r"
  have r: "r = (t @ DQ # q) @ ?d"
    using takeWhile_dropWhile_id [of not_newline r] ln by simp
  have dec: "NL \<notin> set (t @ DQ # q)" "?d = [] \<or> (\<exists>d'. ?d = NL # d')"
    using line_decomposition [of r] ln by simp_all
  have "parse_auth_token (a @ [DQ]) = None"
    unfolding parse_auth_token_def rx_search_None_iff
  proof (intro allI impI)
    fix b1 b2 assume e: "a @ [DQ] = b1 @ b2"
    show "rx_match TOKEN_PATTERN b2 False [] = None"
    proof (cases "b2 = []")
      case True
      then show ?thesis by (simp add: token_match_None_closed)
    next
      case False
      then obtain a2 where b2: "b2 = a2 @ [DQ]" and a: "a = b1 @ a2"
        using e by (metis append_butlast_last_id butlast_append butlast_snoc last_appendR last_snoc)
      show ?thesis
      proof (cases "a2 = []")
        case True
        with b2 show ?thesis by (simp add: token_match_None_closed)
      next
        case ne: False
        with l a have "rx_match TOKEN_PATTERN (a2 @ DQ # r) False [] = None"
          using t0 by blast
        then show ?thesis
          unfolding b2 using token_match_open_iff [OF ne, of r] by blast
      qed
    qed
  qed
  then have "\<not> has_quoted_run (a @ [DQ])"
    by (simp add: parse_auth_token_None_iff)
  moreover have "s = a @ DQ # t @ DQ # q @ ?d"
    using s t0 r by simp
  moreover have "NL \<notin> set t" and "NL \<notin> set q"
    using dec(1) by simp_all
  ultimately have "s = a @ DQ # t @ DQ # q @ ?d
           \<and> \<not> has_quoted_run (a @ [DQ])
           \<and> NL \<notin> set t \<and> NL \<notin> set q \<and> DQ \<notin> set q
           \<and> (?d = [] \<or> (\<exists>d'. ?d = NL # d'))"
    using dec(2) q by blast
  then show ?thesis by blast
qed

lemma no_quote_no_run:
  assumes "DQ \<notin> set pre"
  shows "\<not> has_quoted_run (pre @ [DQ])"
proof
  assume "has_quoted_run (pre @ [DQ])"
  then obtain p t rest where e: "pre @ [DQ] = p @ DQ # t @ DQ # rest"
    unfolding has_quoted_run_def by blast
  then have "butlast (pre @ [DQ]) = butlast (p @ DQ # t @ DQ # rest)" by simp
  then have "pre = p @ DQ # butlast (t @ DQ # rest)"
    by (simp add: butlast_append)
  with assms show False by simp
qed

lemma parse_auth_token_single_pair:
  assumes "DQ \<notin> set pre" and "NL \<notin> set t" and "DQ \<notin> set (takeWhile not_newline rest)"
  shows "parse_auth_token (pre @ DQ # t @ DQ # rest) = Some t"
proof -
  have "parse_auth_token
          (pre @ DQ # t @ DQ # takeWhile not_newline rest @ dropWhile not_newline rest) = Some t"
    using no_quote_no_run [OF assms(1)] assms(2,3) line_decomposition [of rest]
    by (intro parse_auth_token_framed) simp_all
  then show ?thesis by simp
qed

subsection \<open>Login on delivered responses\<close>

lemma extract_csrf_token_http_error:
  assumes "server x (login_page_request # sent s) = Reply r cs"
    and "400 \<le> status_code r \<and> status_code r < 600"
  shows "extract_csrf_token x s =
           (Inl (HTTPError (status_code r)), s\<lparr>cookies := cs, sent := login_page_request # sent s\<rparr>)"
  using assms
  by (simp add: extract_csrf_token_def session_send_Reply raise_for_status_error)

lemma authenticate_gwt_http_error:
  assumes "server x (gwt_request config (build_authenticate_body config) # sent s) = Reply r cs"
    and "400 \<le> status_code r \<and> status_code r < 600"
  shows "authenticate_gwt x config s =
           (Inl (HTTPError (status_code r)),
            s\<lparr>cookies := cs,
              sent := gwt_request config (build_authenticate_body config) # sent s\<rparr>)"
  using assms
  by (simp add: authenticate_gwt_def session_send_Reply raise_for_status_error)

lemma generate_export_token_parsed:
  assumes "server x (gwt_request config (build_generate_token_body config nonce user_id) # sent s)
             = Reply r cs"
    and "\<not> (400 \<le> status_code r \<and> status_code r < 600)"
    and "parse_auth_token (resp_text r) = Some t" and "t \<noteq> []"
  shows "generate_export_token x config nonce user_id s =
           (Inr t,
            s\<lparr>cookies := cs,
              sent := gwt_request config (build_generate_token_body config nonce user_id) # sent s\<rparr>)"
  using assms
  by (simp add: generate_export_token_def session_send_Reply raise_for_status_ok)

lemma login_unparsed_delivered:
  assumes "extract_csrf_token x (self_session c) = (Inr csrf_token, s1)"
    and "perform_login x email password csrf_token s1 = (Inr (), s2)"
    and "server x (gwt_request (self_gwt_config c) (build_authenticate_body (self_gwt_config c))
                   # sent s2) = Reply r cs"
    and "\<not> (400 \<le> status_code r \<and> status_code r < 600)"
    and "\<not> has_user_id_pattern (resp_text r)"
  shows "fst (login x email password c) =
           Inl (GWTVersionError
             (lit ''Could not parse user ID from GWT response. GWT values may be outdated. Response: ''
              @ take 200 (resp_text r)))
         \<and> self_user_id (snd (login x email password c)) = self_user_id c
         \<and> self_nonce (snd (login x email password c)) = self_nonce c"
proof -
  have "parse_user_id (resp_text r) = None"
    using assms(5) by (simp add: parse_user_id_None_iff)
  from login_gwt_failure [OF assms(1,2) authenticate_gwt_unparsed [OF assms(3,4) this]]
  show ?thesis by simp
qed

lemma login_without_csrf_delivered:
  assumes "server x (login_page_request # sent (self_session c)) = Reply r cs"
    and "\<not> (400 \<le> status_code r \<and> status_code r < 600)"
    and "soup_find_input x (resp_text r) = None
         \<or> (\<exists>csrf_input. soup_find_input x (resp_text r) = Some csrf_input
               \<and> (map_of csrf_input (lit ''value'') = None
                    \<or> map_of csrf_input (lit ''value'') = Some (AttrStr [])))"
  shows "(\<exists>m. fst (login x email password c) = Inl (CronometerAuthError m))
         \<and> sent (self_session (snd (login x email password c)))
             = login_page_request # sent (self_session c)
         \<and> req_method login_page_request = GET
         \<and> self_user_id (snd (login x email password c)) = self_user_id c
         \<and> self_nonce (snd (login x email password c)) = self_nonce c"
proof -
  let ?s1 = "(self_session c)\<lparr>cookies := cs,
                sent := login_page_request # sent (self_session c)\<rparr>"
  from assms(3) obtain m where
    "extract_csrf_token x (self_session c) = (Inl (CronometerAuthError m), ?s1)"
    using extract_csrf_token_absent [OF assms(1,2)] extract_csrf_token_no_value [OF assms(1,2)]
    by blast
  then have "login x email password c = (Inl (CronometerAuthError m), c\<lparr>self_session := ?s1\<rparr>)"
    by (rule login_csrf_failure)
  then show ?thesis
    by (simp add: login_page_request_def)
qed

subsection \<open>Concrete runs\<close>

lemma example_csrf_step:
  "extract_csrf_token (example_ext (ok_reply page_with_csrf # rs)) (self_session logged_in)
     = (Inr (lit ''csrf123''), \<lparr> cookies = example_jar, sent = [login_page_request] \<rparr>)"
  by (simp add: lit_simps extract_csrf_token_def session_send_def example_ext_def scripted_def ok_reply_def status_reply_def
      logged_in_def raise_for_status_def example_soup_def)

lemma example_credentials_step:
  \<open>perform_login (example_ext (ok_reply page_with_csrf # ok_reply (lit ''{"success": true}'') # rs))
      email password (lit ''csrf123'')
      \<lparr> cookies = example_jar, sent = [login_page_request] \<rparr>
     = (Inr (),
        \<lparr> cookies = example_jar,
          sent = [login_request email password (lit ''csrf123''), login_page_request] \<rparr>)\<close>
  by (simp add: lit_simps perform_login_def session_send_def example_ext_def scripted_def ok_reply_def status_reply_def
      raise_for_status_def example_json_def)

lemma example_stale_text: "\<not> has_user_id_pattern (lit ''//EX[stale]'')"
  unfolding parse_user_id_None_iff [symmetric]
  by (simp add: lit_simps parse_user_id_def USER_ID_PATTERN_def is_digit_cp)




lemma example_empty_token: \<open>parse_auth_token (lit ''//OK[""]'') = Some []\<close>
  by (simp add: lit_simps parse_auth_token_def TOKEN_PATTERN_def DQ_def NL_def not_newline_def)

lemma example_greedy: \<open>parse_auth_token (lit ''"a" "b"'') = Some (lit ''a" "b'')\<close>
  by (simp add: lit_simps parse_auth_token_def TOKEN_PATTERN_def DQ_def NL_def not_newline_def)

lemma example_sample_token: \<open>parse_auth_token (lit ''//OK["abc123def456"]'') = Some (lit ''abc123def456'')\<close>
  by (simp add: lit_simps parse_auth_token_def TOKEN_PATTERN_def DQ_def NL_def not_newline_def)

lemma example_unquoted: "\<not> has_quoted_run (lit ''some invalid response'')"
  unfolding parse_auth_token_None_iff [symmetric]
  by (simp add: lit_simps parse_auth_token_def TOKEN_PATTERN_def DQ_def NL_def not_newline_def)

lemma example_open_quote: "\<not> has_quoted_run (lit ''tok='' @ [DQ])"
  unfolding parse_auth_token_None_iff [symmetric]
  by (simp add: lit_simps parse_auth_token_def TOKEN_PATTERN_def DQ_def NL_def not_newline_def)

lemma example_error_text: "\<not> has_user_id_pattern (lit ''Internal Server Error'')"
  unfolding parse_user_id_None_iff [symmetric]
  by (simp add: lit_simps parse_user_id_def USER_ID_PATTERN_def)

lemma example_second_quote: \<open>parse_auth_token (lit ''//OK["","b"]'') = Some (lit ''","b'')\<close>
  by (simp add: lit_simps parse_auth_token_def TOKEN_PATTERN_def DQ_def NL_def not_newline_def)


section \<open>The claims\<close>

text \<open>
  C1, at an input where the code departs from it: the first two steps of \<open>login\<close> succeed
  and the RPC endpoint answers the authenticate call with status 500 and a text that holds
  no \<^verbatim>\<open>OK[<digits>,\<close> pattern. \<open>login\<close> raises the HTTPError of \<^verbatim>\<open>raise_for_status\<close>, which is
  not a \<open>GWTVersionError\<close>; the stored identity keeps its values.
\<close>

theorem login_gwt_500_raises_http_error:
  \<open>\<not> has_user_id_pattern (lit ''Internal Server Error'')
   \<and> fst (login (example_ext [ok_reply page_with_csrf, ok_reply (lit ''{"success": true}''),
                               status_reply 500 (lit ''Internal Server Error'')])
            (lit ''a@b.c'') (lit ''pw'') logged_in)
     = Inl (HTTPError 500)
   \<and> \<not> is_GWTVersionError (HTTPError 500)
   \<and> self_user_id (snd (login (example_ext [ok_reply page_with_csrf, ok_reply (lit ''{"success": true}''),
                                             status_reply 500 (lit ''Internal Server Error'')])
                           (lit ''a@b.c'') (lit ''pw'') logged_in)) = Some (lit ''777'')
   \<and> self_nonce (snd (login (example_ext [ok_reply page_with_csrf, ok_reply (lit ''{"success": true}''),
                                           status_reply 500 (lit ''Internal Server Error'')])
                         (lit ''a@b.c'') (lit ''pw'') logged_in)) = Some (lit ''n0'')\<close>
proof -
  let ?x = \<open>example_ext [ok_reply page_with_csrf, ok_reply (lit ''{"success": true}''),
                         status_reply 500 (lit ''Internal Server Error'')]\<close>
  let ?s2 = "\<lparr> cookies = example_jar,
               sent = [login_request (lit ''a@b.c'') (lit ''pw'') (lit ''csrf123''), login_page_request] \<rparr>"
  let ?r = "\<lparr> status_code = 500, resp_text = lit ''Internal Server Error'' \<rparr>"
  have h3: "server ?x (gwt_request (self_gwt_config logged_in)
                          (build_authenticate_body (self_gwt_config logged_in)) # sent ?s2)
              = Reply ?r example_jar"
    by (simp add: example_ext_def scripted_def status_reply_def)
  have h4: "400 \<le> status_code ?r \<and> status_code ?r < 600"
    by simp
  from login_gwt_failure
    [OF example_csrf_step example_credentials_step authenticate_gwt_http_error [OF h3 h4]]
  show ?thesis
    using example_error_text by (simp add: logged_in_def)
qed

text \<open>
  C2, as stated, fails: on a line with two quoted runs the decoder does not return the
  substring between the first pair of double quotes; it runs on to the last double quote of
  the line.
\<close>

theorem parse_auth_token_greedy_counterexample:
  \<open>parse_auth_token (lit ''"a" "b"'') = Some (lit ''a" "b'') \<and> (lit ''a" "b'') \<noteq> lit ''a''\<close>
  using example_greedy by (simp add: lit_simps)

text \<open>
  C2, amended. \<open>parse_auth_token\<close> returns the stretch between the first double quote that has
  another double quote after it on the same line and the last double quote of that line:
  the text is \<open>pre\<close>, the opening quote, the result \<open>t\<close>, the closing quote, the rest \<open>q\<close> of the
  line without a quote, and then the end of the text or a line break; no quote of \<open>pre\<close> is
  closed on its line, not even by the opening quote. Every result arises this way. The
  result is \<^verbatim>\<open>None\<close> exactly when the text has no quoted run on one line. When no quote stands
  before the opening quote and none after the closing quote on its line, the result is
  what stands between the two; the text of two double quotes decodes to the empty string.
\<close>

theorem parse_auth_token_greedy_line:
  "(\<not> has_quoted_run (pre @ [DQ]) \<and> NL \<notin> set t \<and> NL \<notin> set q \<and> DQ \<notin> set q
      \<and> (d = [] \<or> (\<exists>d'. d = NL # d')) \<longrightarrow>
      parse_auth_token (pre @ DQ # t @ DQ # q @ d) = Some t)
   \<and> (parse_auth_token s = Some u \<longrightarrow>
        (\<exists>p q' d'. s = p @ DQ # u @ DQ # q' @ d'
           \<and> \<not> has_quoted_run (p @ [DQ])
           \<and> NL \<notin> set u \<and> NL \<notin> set q' \<and> DQ \<notin> set q'
           \<and> (d' = [] \<or> (\<exists>e. d' = NL # e))))
   \<and> ((parse_auth_token s' = None) = (\<not> has_quoted_run s'))
   \<and> (DQ \<notin> set pre' \<and> NL \<notin> set t' \<and> DQ \<notin> set (takeWhile not_newline rest') \<longrightarrow>
        parse_auth_token (pre' @ DQ # t' @ DQ # rest') = Some t')
   \<and> parse_auth_token [DQ, DQ] = Some []"
proof (intro conjI impI)
  assume "\<not> has_quoted_run (pre @ [DQ]) \<and> NL \<notin> set t \<and> NL \<notin> set q \<and> DQ \<notin> set q
      \<and> (d = [] \<or> (\<exists>d'. d = NL # d'))"
  then show "parse_auth_token (pre @ DQ # t @ DQ # q @ d) = Some t"
    by (intro parse_auth_token_framed) simp_all
next
  assume "parse_auth_token s = Some u"
  then show "\<exists>p q' d'. s = p @ DQ # u @ DQ # q' @ d'
           \<and> \<not> has_quoted_run (p @ [DQ])
           \<and> NL \<notin> set u \<and> NL \<notin> set q' \<and> DQ \<notin> set q'
           \<and> (d' = [] \<or> (\<exists>e. d' = NL # e))"
    by (rule parse_auth_token_Some_split)
next
  show "(parse_auth_token s' = None) = (\<not> has_quoted_run s')"
    by (rule parse_auth_token_None_iff)
next
  assume "DQ \<notin> set pre' \<and> NL \<notin> set t' \<and> DQ \<notin> set (takeWhile not_newline rest')"
  then show "parse_auth_token (pre' @ DQ # t' @ DQ # rest') = Some t'"
    by (intro parse_auth_token_single_pair) simp_all
next
  have "parse_auth_token ([] @ DQ # [] @ DQ # []) = Some []"
    by (rule parse_auth_token_single_pair) simp_all
  then show "parse_auth_token [DQ, DQ] = Some []" by simp
qed

text \<open>
  C2 amended, at concrete texts: a line with two quoted runs followed by a second line, the
  sample response of the specification, and a text without quotes.
\<close>

theorem parse_auth_token_greedy_line_witness:
  \<open>parse_auth_token (lit ''tok='' @ DQ # lit ''a" "b'' @ DQ # lit '' end'' @ NL # lit ''"next"'') = Some (lit ''a" "b'')
   \<and> (\<exists>p q' d'. (lit ''//OK["abc123def456"]'') = p @ DQ # lit ''abc123def456'' @ DQ # q' @ d'
           \<and> \<not> has_quoted_run (p @ [DQ]))
   \<and> parse_auth_token (lit ''some invalid response'') = None
   \<and> parse_auth_token (lit ''//OK['' @ DQ # lit ''abc123def456'' @ DQ # lit '']'') = Some (lit ''abc123def456'')\<close>
proof -
  have a: \<open>\<not> has_quoted_run (lit ''tok='' @ [DQ]) \<and> NL \<notin> set (lit ''a" "b'') \<and> NL \<notin> set (lit '' end'')
           \<and> DQ \<notin> set (lit '' end'')
           \<and> (NL # (lit ''"next"'') = [] \<or> (\<exists>d'. NL # (lit ''"next"'') = NL # d'))\<close>
    using example_open_quote by (simp add: lit_simps NL_def DQ_def)
  have d: "DQ \<notin> set (lit ''//OK['') \<and> NL \<notin> set (lit ''abc123def456'')
           \<and> DQ \<notin> set (takeWhile not_newline (lit '']''))"
    by (simp add: lit_simps NL_def DQ_def not_newline_def)
  show ?thesis
    using parse_auth_token_greedy_line
      [of \<open>lit ''tok=''\<close> \<open>lit ''a" "b''\<close> \<open>lit '' end''\<close> \<open>NL # lit ''"next"''\<close>
          \<open>lit ''//OK["abc123def456"]''\<close> \<open>lit ''abc123def456''\<close> \<open>lit ''some invalid response''\<close>
          \<open>lit ''//OK[''\<close> \<open>lit ''abc123def456''\<close> \<open>lit '']''\<close>]
      a d example_sample_token example_unquoted
    by blast
qed

text \<open>
  C3, at an input where the code departs from it: the CSRF token is fetched and the server
  answers the login POST with status 401. \<open>login\<close> raises the HTTPError of
  \<^verbatim>\<open>raise_for_status\<close>, which is not a \<open>CronometerAuthError\<close>.
\<close>

theorem login_post_401_raises_http_error:
  "fst (login (example_ext [ok_reply page_with_csrf, status_reply 401 (lit ''Unauthorized'')])
          (lit ''a@b.c'') (lit ''pw'') logged_in)
     = Inl (HTTPError 401)
   \<and> \<not> is_CronometerAuthError (HTTPError 401)"
proof -
  let ?x = "example_ext [ok_reply page_with_csrf, status_reply 401 (lit ''Unauthorized'')]"
  let ?s1 = "\<lparr> cookies = example_jar, sent = [login_page_request] \<rparr>"
  let ?r = "\<lparr> status_code = 401, resp_text = lit ''Unauthorized'' \<rparr>"
  have h2: "server ?x (login_request (lit ''a@b.c'') (lit ''pw'') (lit ''csrf123'') # sent ?s1)
              = Reply ?r example_jar"
    by (simp add: example_ext_def scripted_def status_reply_def)
  have h3: "400 \<le> status_code ?r \<and> status_code ?r < 600"
    by simp
  from login_credentials_failure [OF example_csrf_step perform_login_http_error [OF h2 h3]]
  show ?thesis by simp
qed



text \<open>
  C5. When \<open>_user_id\<close> or \<open>_nonce\<close> is \<^verbatim>\<open>None\<close> or empty, \<open>_get_export_token\<close> raises
  \<open>CronometerAuthError\<close> with the message \<^verbatim>\<open>Not authenticated. Call login() first.\<close> and leaves the
  client as it was: the session has sent no request.
\<close>

theorem get_export_token_requires_identity:
  assumes "falsy (self_user_id c) \<or> falsy (self_nonce c)"
  shows "get_export_token x c =
           (Inl (CronometerAuthError (lit ''Not authenticated. Call login() first.'')), c)"
  using ensure_authenticated_falsy [OF assms]
  by (simp add: get_export_token_def)

text \<open>
  C5, on a client that has just been constructed.
\<close>

theorem get_export_token_requires_identity_witness:
  "get_export_token (example_ext [ok_reply (lit ''unused'')]) (init Map.empty None None) =
     (Inl (CronometerAuthError (lit ''Not authenticated. Call login() first.'')),
      init Map.empty None None)"
proof -
  have "falsy (self_user_id (init Map.empty None None))
        \<or> falsy (self_nonce (init Map.empty None None))"
    by (simp add: init_def falsy_def)
  then show ?thesis
    by (rule get_export_token_requires_identity)
qed

text \<open>
  C6, as stated, fails: an explicit argument that is the empty string is supplied and is not
  used; the configuration falls through to the environment and the default.
\<close>

theorem get_gwt_config_empty_argument_counterexample:
  "permutation (get_gwt_config Map.empty (Some []) None) = DEFAULT_GWT_PERMUTATION
   \<and> DEFAULT_GWT_PERMUTATION \<noteq> []"
  by (simp add: lit_simps get_gwt_config_def str_or_def environ_get_def DEFAULT_GWT_PERMUTATION_def)

text \<open>
  C6, amended. For the permutation and for the header independently: a non-empty explicit
  argument is used; otherwise (argument absent or empty) the environment variable is used when
  it is set; otherwise the built-in default is used.
\<close>

theorem get_gwt_config_precedence:
  "(permutation_arg = Some p \<and> p \<noteq> [] \<longrightarrow>
      permutation (get_gwt_config environ permutation_arg header_arg) = p)
   \<and> ((permutation_arg = None \<or> permutation_arg = Some [])
        \<and> environ ENV_GWT_PERMUTATION = Some pe \<longrightarrow>
      permutation (get_gwt_config environ permutation_arg header_arg) = pe)
   \<and> ((permutation_arg = None \<or> permutation_arg = Some [])
        \<and> environ ENV_GWT_PERMUTATION = None \<longrightarrow>
      permutation (get_gwt_config environ permutation_arg header_arg) = DEFAULT_GWT_PERMUTATION)
   \<and> (header_arg = Some h \<and> h \<noteq> [] \<longrightarrow>
      header (get_gwt_config environ permutation_arg header_arg) = h)
   \<and> ((header_arg = None \<or> header_arg = Some [])
        \<and> environ ENV_GWT_HEADER = Some he \<longrightarrow>
      header (get_gwt_config environ permutation_arg header_arg) = he)
   \<and> ((header_arg = None \<or> header_arg = Some [])
        \<and> environ ENV_GWT_HEADER = None \<longrightarrow>
      header (get_gwt_config environ permutation_arg header_arg) = DEFAULT_GWT_HEADER)"
  by (auto simp add: get_gwt_config_def str_or_def environ_get_def)

text \<open>
  C6 amended, at concrete arguments and environments.
\<close>

theorem get_gwt_config_precedence_witness:
  "permutation (get_gwt_config [ENV_GWT_PERMUTATION \<mapsto> (lit ''ENV_PERM'')] (Some (lit ''PARAM_PERM'')) None)
     = lit ''PARAM_PERM''
   \<and> header (get_gwt_config [ENV_GWT_PERMUTATION \<mapsto> (lit ''ENV_PERM'')] (Some (lit ''PARAM_PERM'')) None)
     = DEFAULT_GWT_HEADER
   \<and> permutation (get_gwt_config [ENV_GWT_HEADER \<mapsto> (lit ''ENV_HEAD'')] None (Some (lit ''PARAM_HEAD'')))
     = DEFAULT_GWT_PERMUTATION
   \<and> header (get_gwt_config [ENV_GWT_HEADER \<mapsto> (lit ''ENV_HEAD'')] None (Some (lit ''PARAM_HEAD'')))
     = lit ''PARAM_HEAD''
   \<and> permutation (get_gwt_config [ENV_GWT_PERMUTATION \<mapsto> (lit ''ENV_PERM''), ENV_GWT_HEADER \<mapsto> (lit ''ENV_HEAD'')]
        None None) = lit ''ENV_PERM''
   \<and> header (get_gwt_config [ENV_GWT_PERMUTATION \<mapsto> (lit ''ENV_PERM''), ENV_GWT_HEADER \<mapsto> (lit ''ENV_HEAD'')]
        None None) = lit ''ENV_HEAD''"
proof -
  have ne: "ENV_GWT_PERMUTATION \<noteq> ENV_GWT_HEADER"
    by (simp add: lit_simps ENV_GWT_PERMUTATION_def ENV_GWT_HEADER_def)
  show ?thesis
    using
      get_gwt_config_precedence [of "Some (lit ''PARAM_PERM'')" "(lit ''PARAM_PERM'')"
        "[ENV_GWT_PERMUTATION \<mapsto> (lit ''ENV_PERM'')]" None "(lit ''ENV_PERM'')" "(lit ''H'')" "(lit ''HE'')"]
      get_gwt_config_precedence [of None "(lit ''P'')"
        "[ENV_GWT_HEADER \<mapsto> (lit ''ENV_HEAD'')]" "Some (lit ''PARAM_HEAD'')" "(lit ''PE'')" "(lit ''PARAM_HEAD'')" "(lit ''ENV_HEAD'')"]
      get_gwt_config_precedence [of None "(lit ''P'')"
        "[ENV_GWT_PERMUTATION \<mapsto> (lit ''ENV_PERM''), ENV_GWT_HEADER \<mapsto> (lit ''ENV_HEAD'')]" None
        "(lit ''ENV_PERM'')" "(lit ''H'')" "(lit ''ENV_HEAD'')"]
      ne
    by (simp add: lit_simps)
qed

text \<open>
  C7, at an input where the code departs from it: the server answers the fetch of the login
  page with status 503 and a body without the \<open>anticsrf\<close> input. \<open>login\<close> raises the
  HTTPError of \<^verbatim>\<open>raise_for_status\<close>, which is not a \<open>CronometerAuthError\<close>; the only request
  sent is the GET of the login page.
\<close>

theorem login_page_503_raises_http_error:
  "soup_find_input (example_ext [status_reply 503 (lit ''Service Unavailable'')])
      (lit ''Service Unavailable'') = None
   \<and> fst (login (example_ext [status_reply 503 (lit ''Service Unavailable'')])
            (lit ''a@b.c'') (lit ''pw'') logged_in)
     = Inl (HTTPError 503)
   \<and> \<not> is_CronometerAuthError (HTTPError 503)
   \<and> sent (self_session (snd (login (example_ext [status_reply 503 (lit ''Service Unavailable'')])
                                   (lit ''a@b.c'') (lit ''pw'') logged_in)))
     = [login_page_request]"
proof -
  let ?x = "example_ext [status_reply 503 (lit ''Service Unavailable'')]"
  let ?r = "\<lparr> status_code = 503, resp_text = lit ''Service Unavailable'' \<rparr>"
  have h1: "server ?x (login_page_request # sent (self_session logged_in)) = Reply ?r example_jar"
    by (simp add: example_ext_def scripted_def status_reply_def logged_in_def)
  have h2: "400 \<le> status_code ?r \<and> status_code ?r < 600"
    by simp
  have h3: "soup_find_input ?x (lit ''Service Unavailable'') = None"
    by (simp add: example_ext_def example_soup_def page_with_csrf_def lit_simps)
  from login_csrf_failure [OF extract_csrf_token_http_error [OF h1 h2]]
  show ?thesis
    using h3 by (simp add: logged_in_def)
qed

text \<open>
  C8. Each request body is its fixed list of segments, every one followed by \<^verbatim>\<open>|\<close>: the
  authenticate body carries the count 5 and \<open>header config\<close> in position four; the
  generateAuthorizationToken body carries the count 8, \<open>header config\<close>, the nonce, the user id
  and the literal 3600. When the substituted values contain no \<^verbatim>\<open>|\<close>, splitting the body at
  \<^verbatim>\<open>|\<close> gives exactly these segments back.
\<close>

theorem request_bodies_follow_template:
  "build_authenticate_body config =
     join_with (cp CHR ''|'')
       [lit ''7'', lit ''0'', lit ''5'', lit ''https://cronometer.com/cronometer/'', header config,
        (lit ''com.cronometer.shared.rpc.CronometerService''), lit ''authenticate'',
        (lit ''java.lang.Integer/3438268394''),
        (lit ''1''), lit ''2'', lit ''3'', lit ''4'', lit ''1'', lit ''5'', lit ''5'', lit ''-300'', []]
   \<and> build_generate_token_body config nonce user_id =
     join_with (cp CHR ''|'')
       [lit ''7'', lit ''0'', lit ''8'', lit ''https://cronometer.com/cronometer/'', header config,
        (lit ''com.cronometer.shared.rpc.CronometerService''), lit ''generateAuthorizationToken'',
        (lit ''java.lang.String/2004016611''), lit ''I'',
        (lit ''com.cronometer.shared.user.AuthScope/2065601159''), nonce,
        (lit ''1''), lit ''2'', lit ''3'', lit ''4'', lit ''4'', lit ''5'', lit ''6'', lit ''6'', lit ''7'', lit ''8'',
        user_id, lit ''3600'', lit ''7'', lit ''2'', []]
   \<and> ((cp CHR ''|'') \<notin> set (header config) \<longrightarrow>
        split_on (cp CHR ''|'') (build_authenticate_body config) =
          [lit ''7'', lit ''0'', lit ''5'', lit ''https://cronometer.com/cronometer/'', header config,
           (lit ''com.cronometer.shared.rpc.CronometerService''), lit ''authenticate'',
           (lit ''java.lang.Integer/3438268394''),
           (lit ''1''), lit ''2'', lit ''3'', lit ''4'', lit ''1'', lit ''5'', lit ''5'', lit ''-300'', []])
   \<and> ((cp CHR ''|'') \<notin> set (header config) \<and> (cp CHR ''|'') \<notin> set nonce \<and> (cp CHR ''|'') \<notin> set user_id \<longrightarrow>
        split_on (cp CHR ''|'') (build_generate_token_body config nonce user_id) =
          [lit ''7'', lit ''0'', lit ''8'', lit ''https://cronometer.com/cronometer/'', header config,
           (lit ''com.cronometer.shared.rpc.CronometerService''), lit ''generateAuthorizationToken'',
           (lit ''java.lang.String/2004016611''), lit ''I'',
           (lit ''com.cronometer.shared.user.AuthScope/2065601159''), nonce,
           (lit ''1''), lit ''2'', lit ''3'', lit ''4'', lit ''4'', lit ''5'', lit ''6'', lit ''6'', lit ''7'', lit ''8'',
           user_id, lit ''3600'', lit ''7'', lit ''2'', []])"
proof (intro conjI impI)
  show "build_authenticate_body config =
     join_with (cp CHR ''|'')
       [lit ''7'', lit ''0'', lit ''5'', lit ''https://cronometer.com/cronometer/'', header config,
        (lit ''com.cronometer.shared.rpc.CronometerService''), lit ''authenticate'',
        (lit ''java.lang.Integer/3438268394''),
        (lit ''1''), lit ''2'', lit ''3'', lit ''4'', lit ''1'', lit ''5'', lit ''5'', lit ''-300'', []]"
    by (rule authenticate_body_join)
  show "build_generate_token_body config nonce user_id =
     join_with (cp CHR ''|'')
       [lit ''7'', lit ''0'', lit ''8'', lit ''https://cronometer.com/cronometer/'', header config,
        (lit ''com.cronometer.shared.rpc.CronometerService''), lit ''generateAuthorizationToken'',
        (lit ''java.lang.String/2004016611''), lit ''I'',
        (lit ''com.cronometer.shared.user.AuthScope/2065601159''), nonce,
        (lit ''1''), lit ''2'', lit ''3'', lit ''4'', lit ''4'', lit ''5'', lit ''6'', lit ''6'', lit ''7'', lit ''8'',
        user_id, lit ''3600'', lit ''7'', lit ''2'', []]"
    by (rule generate_token_body_join)
next
  assume h: "(cp CHR ''|'') \<notin> set (header config)"
  show "split_on (cp CHR ''|'') (build_authenticate_body config) =
          [lit ''7'', lit ''0'', lit ''5'', lit ''https://cronometer.com/cronometer/'', header config,
           (lit ''com.cronometer.shared.rpc.CronometerService''), lit ''authenticate'',
           (lit ''java.lang.Integer/3438268394''),
           (lit ''1''), lit ''2'', lit ''3'', lit ''4'', lit ''1'', lit ''5'', lit ''5'', lit ''-300'', []]"
    unfolding authenticate_body_join
    by (rule split_on_join_with) (use h in \<open>auto simp add: lit_simps\<close>)
next
  assume h: "(cp CHR ''|'') \<notin> set (header config) \<and> (cp CHR ''|'') \<notin> set nonce \<and> (cp CHR ''|'') \<notin> set user_id"
  show "split_on (cp CHR ''|'') (build_generate_token_body config nonce user_id) =
          [lit ''7'', lit ''0'', lit ''8'', lit ''https://cronometer.com/cronometer/'', header config,
           (lit ''com.cronometer.shared.rpc.CronometerService''), lit ''generateAuthorizationToken'',
           (lit ''java.lang.String/2004016611''), lit ''I'',
           (lit ''com.cronometer.shared.user.AuthScope/2065601159''), nonce,
           (lit ''1''), lit ''2'', lit ''3'', lit ''4'', lit ''4'', lit ''5'', lit ''6'', lit ''6'', lit ''7'', lit ''8'',
           user_id, lit ''3600'', lit ''7'', lit ''2'', []]"
    unfolding generate_token_body_join
    by (rule split_on_join_with) (use h in \<open>auto simp add: lit_simps\<close>)
qed

text \<open>
  C8, on the default configuration with the nonce n0 and the user id 777.
\<close>

theorem request_bodies_follow_template_witness:
  "split_on (cp CHR ''|'') (build_authenticate_body (self_gwt_config logged_in)) =
     [lit ''7'', lit ''0'', lit ''5'', lit ''https://cronometer.com/cronometer/'',
      (lit ''2D6A926E3729946302DC68073CB0D550''),
      (lit ''com.cronometer.shared.rpc.CronometerService''), lit ''authenticate'',
      (lit ''java.lang.Integer/3438268394''),
      (lit ''1''), lit ''2'', lit ''3'', lit ''4'', lit ''1'', lit ''5'', lit ''5'', lit ''-300'', []]
   \<and> split_on (cp CHR ''|'') (build_generate_token_body (self_gwt_config logged_in) (lit ''n0'') (lit ''777'')) =
     [lit ''7'', lit ''0'', lit ''8'', lit ''https://cronometer.com/cronometer/'',
      (lit ''2D6A926E3729946302DC68073CB0D550''),
      (lit ''com.cronometer.shared.rpc.CronometerService''), lit ''generateAuthorizationToken'',
      (lit ''java.lang.String/2004016611''), lit ''I'',
      (lit ''com.cronometer.shared.user.AuthScope/2065601159''), lit ''n0'',
      (lit ''1''), lit ''2'', lit ''3'', lit ''4'', lit ''4'', lit ''5'', lit ''6'', lit ''6'', lit ''7'', lit ''8'',
      (lit ''777''), lit ''3600'', lit ''7'', lit ''2'', []]"
proof -
  have h: "header (self_gwt_config logged_in) = lit ''2D6A926E3729946302DC68073CB0D550''"
    by (simp add: logged_in_def get_gwt_config_def str_or_def environ_get_def
        DEFAULT_GWT_HEADER_def)
  have p: "(cp CHR ''|'') \<notin> set (header (self_gwt_config logged_in))
           \<and> (cp CHR ''|'') \<notin> set (lit ''n0'') \<and> (cp CHR ''|'') \<notin> set (lit ''777'')"
    unfolding h by (simp add: lit_simps)
  show ?thesis
    using request_bodies_follow_template [of "self_gwt_config logged_in" "(lit ''n0'')" "(lit ''777'')"] p
    unfolding h by blast
qed

text \<open>
  C10, as stated, fails: in the response \<^verbatim>\<open>//OK["","b"]\<close> the first double-quoted run is the
  empty string, yet the decoder runs on to the last double quote of the line and
  \<open>generate_export_token\<close> returns the token it finds.
\<close>

theorem generate_export_token_greedy_counterexample:
  \<open>lit ''//OK["","b"]'' = lit ''//OK['' @ DQ # [] @ DQ # lit '',"b"]''
   \<and> DQ \<notin> set (lit ''//OK['')
   \<and> fst (generate_export_token (example_ext [ok_reply (lit ''//OK["","b"]'')])
            (self_gwt_config logged_in) (lit ''n0'') (lit ''777'') fresh_session)
     = Inr (lit ''","b'')\<close>
proof -
  let ?x = \<open>example_ext [ok_reply (lit ''//OK["","b"]'')]\<close>
  let ?r = \<open>\<lparr> status_code = 200, resp_text = lit ''//OK["","b"]'' \<rparr>\<close>
  have h1: "server ?x (gwt_request (self_gwt_config logged_in)
                (build_generate_token_body (self_gwt_config logged_in) (lit ''n0'') (lit ''777''))
              # sent fresh_session) = Reply ?r example_jar"
    by (simp add: example_ext_def scripted_def ok_reply_def status_reply_def fresh_session_def)
  have h2: "\<not> (400 \<le> status_code ?r \<and> status_code ?r < 600)"
    by simp
  have h3: \<open>parse_auth_token (resp_text ?r) = Some (lit ''","b'')\<close>
    using example_second_quote by simp
  have h4: \<open>lit ''","b'' \<noteq> []\<close>
    by (simp add: lit_simps)
  from generate_export_token_parsed [OF h1 h2 h3 h4]
  show ?thesis
    by (simp add: lit_simps DQ_def)
qed

text \<open>
  C10, amended. When the token-minting response passes \<^verbatim>\<open>raise_for_status\<close>:
  \<open>generate_export_token\<close> raises \<open>GWTVersionError\<close>, with the first 200 characters of the
  text in the message, whenever \<open>parse_auth_token\<close> gives \<^verbatim>\<open>None\<close> or the empty string for the
  text, and returns the decoded token whenever it is not empty. In no case does
  \<open>generate_export_token\<close> return the empty string.
\<close>

theorem generate_export_token_rejects_empty:
  "(server x (gwt_request config (build_generate_token_body config nonce user_id) # sent s)
        = Reply r cs
      \<and> \<not> (400 \<le> status_code r \<and> status_code r < 600)
      \<and> (parse_auth_token (resp_text r) = None \<or> parse_auth_token (resp_text r) = Some [])
    \<longrightarrow> fst (generate_export_token x config nonce user_id s) =
          Inl (GWTVersionError
            (lit ''Could not parse auth token from GWT response. GWT values may be outdated. Response: ''
             @ take 200 (resp_text r))))
   \<and> (server x (gwt_request config (build_generate_token_body config nonce user_id) # sent s)
        = Reply r cs
      \<and> \<not> (400 \<le> status_code r \<and> status_code r < 600)
      \<and> parse_auth_token (resp_text r) = Some t \<and> t \<noteq> []
    \<longrightarrow> fst (generate_export_token x config nonce user_id s) = Inr t)
   \<and> fst (generate_export_token x config nonce user_id s) \<noteq> Inr []"
proof (intro conjI impI)
  assume h: "server x (gwt_request config (build_generate_token_body config nonce user_id) # sent s)
        = Reply r cs
      \<and> \<not> (400 \<le> status_code r \<and> status_code r < 600)
      \<and> (parse_auth_token (resp_text r) = None \<or> parse_auth_token (resp_text r) = Some [])"
  then have "generate_export_token x config nonce user_id s =
           (Inl (GWTVersionError
              (lit ''Could not parse auth token from GWT response. GWT values may be outdated. Response: ''
               @ take 200 (resp_text r))),
            s\<lparr>cookies := cs,
              sent := gwt_request config (build_generate_token_body config nonce user_id) # sent s\<rparr>)"
    by (intro generate_export_token_unparsed) simp_all
  then show "fst (generate_export_token x config nonce user_id s) =
          Inl (GWTVersionError
            (lit ''Could not parse auth token from GWT response. GWT values may be outdated. Response: ''
             @ take 200 (resp_text r)))"
    by simp
next
  assume h: "server x (gwt_request config (build_generate_token_body config nonce user_id) # sent s)
        = Reply r cs
      \<and> \<not> (400 \<le> status_code r \<and> status_code r < 600)
      \<and> parse_auth_token (resp_text r) = Some t \<and> t \<noteq> []"
  then have h1: "server x (gwt_request config (build_generate_token_body config nonce user_id) # sent s)
        = Reply r cs"
    and h2: "\<not> (400 \<le> status_code r \<and> status_code r < 600)"
    and h3: "parse_auth_token (resp_text r) = Some t" and h4: "t \<noteq> []"
    by simp_all
  have "generate_export_token x config nonce user_id s =
           (Inr t,
            s\<lparr>cookies := cs,
              sent := gwt_request config (build_generate_token_body config nonce user_id) # sent s\<rparr>)"
    using h1 h2 h3 h4 by (rule generate_export_token_parsed)
  then show "fst (generate_export_token x config nonce user_id s) = Inr t"
    by simp
next
  show "fst (generate_export_token x config nonce user_id s) \<noteq> Inr []"
    by (rule generate_export_token_nonempty)
qed

text \<open>
  C10 amended, on the response \<^verbatim>\<open>//OK[""]\<close>, which the decoder maps to the empty string, and
  on the sample response of the specification.
\<close>

theorem generate_export_token_rejects_empty_witness:
  \<open>parse_auth_token (lit ''//OK[""]'') = Some []
   \<and> fst (generate_export_token (example_ext [ok_reply (lit ''//OK[""]'')]) (self_gwt_config logged_in)
            (lit ''n0'') (lit ''777'') fresh_session)
     = Inl (GWTVersionError
         (lit ''Could not parse auth token from GWT response. GWT values may be outdated. Response: //OK[""]''))
   \<and> fst (generate_export_token (example_ext [ok_reply (lit ''//OK["abc123def456"]'')])
            (self_gwt_config logged_in) (lit ''n0'') (lit ''777'') fresh_session)
     = Inr (lit ''abc123def456'')\<close>
proof -
  let ?x = \<open>example_ext [ok_reply (lit ''//OK[""]'')]\<close>
  let ?r = \<open>\<lparr> status_code = 200, resp_text = lit ''//OK[""]'' \<rparr>\<close>
  let ?y = \<open>example_ext [ok_reply (lit ''//OK["abc123def456"]'')]\<close>
  let ?q = \<open>\<lparr> status_code = 200, resp_text = lit ''//OK["abc123def456"]'' \<rparr>\<close>
  let ?body = "build_generate_token_body (self_gwt_config logged_in) (lit ''n0'') (lit ''777'')"
  have a: "server ?x (gwt_request (self_gwt_config logged_in) ?body # sent fresh_session)
             = Reply ?r example_jar
      \<and> \<not> (400 \<le> status_code ?r \<and> status_code ?r < 600)
      \<and> (parse_auth_token (resp_text ?r) = None \<or> parse_auth_token (resp_text ?r) = Some [])"
    using example_empty_token
    by (simp add: example_ext_def scripted_def ok_reply_def status_reply_def fresh_session_def)
  have b: "server ?y (gwt_request (self_gwt_config logged_in) ?body # sent fresh_session)
             = Reply ?q example_jar
      \<and> \<not> (400 \<le> status_code ?q \<and> status_code ?q < 600)
      \<and> parse_auth_token (resp_text ?q) = Some (lit ''abc123def456'')
      \<and> lit ''abc123def456'' \<noteq> []"
    using example_sample_token
    by (simp add: example_ext_def scripted_def ok_reply_def status_reply_def fresh_session_def
        lit_simps)
  show ?thesis
    using generate_export_token_rejects_empty
        [of ?x "self_gwt_config logged_in" "lit ''n0''" "lit ''777''" fresh_session ?r example_jar]
      generate_export_token_rejects_empty
        [of ?y "self_gwt_config logged_in" "lit ''n0''" "lit ''777''" fresh_session ?q example_jar
            "lit ''abc123def456''"]
      a b example_empty_token
    by (simp add: lit_simps)
qed

end
